theory Spec2Isabelle
  imports Main
begin

section \<open>Python values, errors and results\<close>

text \<open>
  The add-on is Python. Every exception the modelled code can raise is a value of
  \<open>error\<close>. A call either raises or returns, and what it did to the scene before
  raising stays done, so an effectful function yields a pair of a \<open>result\<close> and the
  state it leaves behind.
\<close>

datatype error =
    ValueError string
  | TypeError string
  | IndexError string
  | NameError string
  | UnicodeEncodeError
  | UnicodeDecodeError
  | BinasciiError string

datatype 'a result = Raised error | Returned 'a

text \<open>
  sequencer.py and ops_timeline.py use names that no file of the repository defines and
  that the module using them does not import: \<open>get_version_seq_name\<close>,
  \<open>download_movie_from_kitsu\<close>, \<open>get_kitsu_statuses\<close>, \<open>attach_to_dl\<close>,
  \<open>Process\<close> and \<open>drawing_on_transparent_bg\<close> in sequencer.py,
  \<open>is_user_authorized_to_review\<close> in ops_timeline.py. Python looks a global name up
  when the statement that uses it runs, and raises NameError when the module's namespace
  and the builtins do not have it. \<open>unbound_global\<close> is that lookup, for a name the
  module does not have; the value a bound name would have given is the \<open>Returned\<close>
  branch of the \<open>case\<close> at each use, which this lookup never takes.
\<close>

definition unbound_global :: "string \<Rightarrow> 'a result" where
  "unbound_global name =
     Raised (NameError (''name '' @ [CHR 0x27] @ name @ [CHR 0x27] @ '' is not defined''))"

text \<open>
  The tracker's entities and the entries of the build queue are untyped Python objects.
  A subscript or a tuple component of the queue is \<open>None\<close>, an \<open>int\<close> or a
  \<open>str\<close>: \<open>xs[v]\<close> is Python's subscript, where a negative \<open>int\<close> counts from
  the end, an \<open>int\<close> out of range raises IndexError and anything else TypeError.
\<close>

datatype py_value = PyNone | PyInt int | PyStr string

definition py_getitem :: "'a list \<Rightarrow> py_value \<Rightarrow> 'a result" where
  "py_getitem xs v =
     (case v of
        PyInt i \<Rightarrow>
          (if 0 \<le> i \<and> i < int (length xs) then Returned (xs ! nat i)
           else if i < 0 \<and> - int (length xs) \<le> i then Returned (xs ! nat (int (length xs) + i))
           else Raised (IndexError ''list index out of range''))
      | PyNone \<Rightarrow> Raised (TypeError ''list indices must be integers or slices, not NoneType'')
      | PyStr _ \<Rightarrow> Raised (TypeError ''list indices must be integers or slices, not str''))"

section \<open>Review status (sequencer.py, build_orio_status)\<close>

text \<open>
  \<open>orio.Status(state=..., author="")\<close>. The taxonomy \<open>available_statuses\<close> is a
  dict; \<open>.get\<close> of an absent key is \<open>None\<close>, and \<open>x in None\<close> raises TypeError.
  The raw status is a label, or \<open>None\<close> when the version has none (create_version_sequence
  passes \<open>kitsu_version.status\<close> as it is). The rejected labels are looked at first.
\<close>

record orio_status =
  state :: string
  author :: string

definition py_in :: "string option \<Rightarrow> string list option \<Rightarrow> bool result" where
  "py_in x c =
     (case c of
        None \<Rightarrow> Raised (TypeError ''argument of type 'NoneType' is not iterable'')
      | Some xs \<Rightarrow> Returned (case x of None \<Rightarrow> False | Some label \<Rightarrow> label \<in> set xs))"

definition build_orio_status ::
  "(string \<rightharpoonup> string list) \<Rightarrow> string option \<Rightarrow> orio_status result" where
  "build_orio_status available_statuses version_status =
     (let approved_statuses = available_statuses ''approved'';
          rejected_statuses = available_statuses ''rejected''
      in case py_in version_status rejected_statuses of
           Raised e \<Rightarrow> Raised e
         | Returned in_rejected \<Rightarrow>
             if in_rejected then Returned \<lparr>state = ''rejected'', author = ''''\<rparr>
             else (case py_in version_status approved_statuses of
                     Raised e \<Rightarrow> Raised e
                   | Returned in_approved \<Rightarrow>
                       if in_approved then Returned \<lparr>state = ''approved'', author = ''''\<rparr>
                       else Returned \<lparr>state = ''waiting review'', author = ''''\<rparr>))"

section \<open>Tracker entities and timeline strips\<close>

text \<open>
  A Kitsu shot has a name, a code (\<open>kitsu_shot.get('code')\<close>, \<open>None\<close> when absent) and a
  duration in frames, \<open>None\<close> when Kitsu has no cut duration. A Kitsu version has a movie
  path and a status, each possibly \<open>None\<close>.
\<close>

record kitsu_shot =
  shot_name :: string
  shot_code :: "string option"
  duration :: "int option"

record kitsu_version =
  movie_path :: "string option"
  status :: "string option"

text \<open>
  A version's strip inside a shot stack: what \<open>new_image\<close>, \<open>new_sound\<close> or
  \<open>new_movie\<close> is given, and the custom properties the add-on sets on it afterwards.
\<close>

datatype strip_type = IMAGE | SOUND | MOVIE

record sequence =
  seq_name :: string
  seq_type :: strip_type
  filepath :: string
  seq_channel :: int
  seq_frame_start :: int
  has_media_info :: bool
  current_status :: "string option"
  seq_version :: "kitsu_version option"
  lock :: bool
  to_build_notes :: bool

text \<open>A shot stack: the meta strip of one shot on one channel, holding its versions.\<close>

record meta =
  meta_name :: string
  meta_channel :: int
  frame_final_start :: int
  frame_final_duration :: int
  stax_meta_usage :: string
  meta_shot :: kitsu_shot
  sequences :: "sequence list"

text \<open>
  What the module reads from outside itself: pathlib (\<open>Path(p).is_file()\<close>,
  \<open>Path(p).suffix.lower()\<close>, \<open>str(Path(p))\<close>) and whether the host hands back a strip
  from \<open>new_image\<close>, \<open>new_sound\<close> or \<open>new_movie\<close> (the code checks \<open>if not sequence\<close>).
\<close>

record env =
  is_file :: "string \<Rightarrow> bool"
  suffix_lower :: "string \<Rightarrow> string"
  path_str :: "string \<Rightarrow> string"
  host_new_sequence :: "strip_type \<Rightarrow> string \<Rightarrow> bool"

definition image_files_extensions :: "string list" where
  "image_files_extensions =
     [''.bmp'', ''.cin'', ''.dds'', ''.dpx'', ''.exr'', ''.hdr'', ''.j2c'', ''.jp2'', ''.jpeg'',
      ''.jpg'', ''.pdd'', ''.png'', ''.psb'', ''.psd'', ''.rgb'', ''.rgba'', ''.sgi'', ''.tga'',
      ''.tif'', ''.tiff'', ''.tx'']"

definition sound_files_extensions :: "string list" where
  "sound_files_extensions =
     [''.wav'', ''.ogg'', ''.oga'', ''.mp3'', ''.mp2'', ''.ac3'', ''.aac'', ''.flac'', ''.wma'',
      ''.eac3'', ''.aif'', ''.aiff'', ''.m4a'', ''.mka'']"

section \<open>Version strips (sequencer.py, create_version_sequence)\<close>

text \<open>
  The function's parameters are \<open>(self, shot_stack, kitsu_version, channel_index=None,
  try_download=False)\<close>; the body never reads \<open>self\<close>. It mutates \<open>shot_stack\<close>, so the
  model returns the stack next to the result. A strip created before a raise stays in the
  stack.

  The first statement of the body, line 143, is
  \<open>version_name = get_version_seq_name(kitsu_version)\<close>, and sequencer.py has no
  \<open>get_version_seq_name\<close>: the lookup raises NameError before the sentinels of lines 146
  to 148 and 158 to 161 are reached. Lines 156 and 207 look up two more names the module
  does not have.
\<close>

definition new_strip :: "string \<Rightarrow> strip_type \<Rightarrow> string \<Rightarrow> int \<Rightarrow> int \<Rightarrow> sequence" where
  "new_strip version_name ty path channel_index start =
     \<lparr>seq_name = version_name, seq_type = ty, filepath = path, seq_channel = channel_index,
      seq_frame_start = start, has_media_info = False, current_status = None,
      seq_version = None, lock = False, to_build_notes = False\<rparr>"

definition resolve_clip_path :: "env \<Rightarrow> kitsu_version \<Rightarrow> bool \<Rightarrow> string option result" where
  "resolve_clip_path e kitsu_version try_download =
     (let version_clip_path = movie_path kitsu_version
      in if try_download then
           (if (case version_clip_path of None \<Rightarrow> True | Some p \<Rightarrow> p = [] \<or> \<not> is_file e p)
            then (case unbound_global ''download_movie_from_kitsu'' of
                    Raised err \<Rightarrow> Raised err
                  | Returned download_movie_from_kitsu \<Rightarrow>
                      Returned (download_movie_from_kitsu kitsu_version))
            else Returned version_clip_path)
         else Returned version_clip_path)"

definition strip_type_of :: "env \<Rightarrow> string \<Rightarrow> strip_type" where
  "strip_type_of e p =
     (if suffix_lower e p \<in> set image_files_extensions then IMAGE
      else if suffix_lower e p \<in> set sound_files_extensions then SOUND
      else MOVIE)"

definition create_version_sequence ::
  "env \<Rightarrow> 'self \<Rightarrow> meta \<Rightarrow> kitsu_version \<Rightarrow> int option \<Rightarrow> bool
     \<Rightarrow> sequence option result \<times> meta" where
  "create_version_sequence e self shot_stack kitsu_version channel_index try_download =
     (case unbound_global ''get_version_seq_name'' of
        Raised err \<Rightarrow> (Raised err, shot_stack)
      | Returned get_version_seq_name \<Rightarrow>
     (let version_name = get_version_seq_name kitsu_version;
          existing_versions = map seq_name (sequences shot_stack)
      in if version_name \<in> set existing_versions
            \<or> (''stax.'' @ version_name) \<in> set existing_versions
         then (Returned None, shot_stack)
         else
           (case resolve_clip_path e kitsu_version try_download of
              Raised err \<Rightarrow> (Raised err, shot_stack)
            | Returned None \<Rightarrow> (Returned None, shot_stack)
            | Returned (Some p) \<Rightarrow>
                if p = [] then (Returned None, shot_stack)
                else
                  (let chan = (case channel_index of
                                 None \<Rightarrow> int (length (sequences shot_stack)) + 1
                               | Some c \<Rightarrow>
                                   if c = 0 then int (length (sequences shot_stack)) + 1 else c);
                       start = frame_final_start shot_stack;
                       ty = strip_type_of e p
                   in if \<not> host_new_sequence e ty (path_str e p) then (Returned None, shot_stack)
                      else
                        (let created = (new_strip version_name ty (path_str e p) chan start)
                                          \<lparr>has_media_info := True\<rparr>
                         in case unbound_global ''get_kitsu_statuses'' of
                              Raised err \<Rightarrow>
                                (Raised err,
                                 shot_stack\<lparr>sequences := sequences shot_stack @ [created]\<rparr>)
                            | Returned get_kitsu_statuses \<Rightarrow>
                         (case build_orio_status get_kitsu_statuses (status kitsu_version) of
                              Raised err \<Rightarrow>
                                (Raised err,
                                 shot_stack\<lparr>sequences := sequences shot_stack @ [created]\<rparr>)
                            | Returned st \<Rightarrow>
                                (let final = created\<lparr>current_status := Some (state st),
                                                      seq_version := Some kitsu_version\<rparr>
                                 in (Returned (Some final),
                                     shot_stack\<lparr>sequences := sequences shot_stack @ [final]\<rparr>))))))))"

section \<open>The timeline and its build state\<close>

text \<open>
  \<open>counter\<close> and \<open>frame_offset\<close> are the module globals of ops_timeline.py;
  \<open>frame_offset\<close> holds whatever was last assigned to it, \<open>None\<close> included. The rest is
  the host's scene: the top-level strips of the sequence editor (the shot stacks), the
  frame numbers of each layer of the "Annotations" grease pencil, the current frame, and
  the host operators called so far, in order.
\<close>

datatype host_call = ViewAll | RefreshAll | DeselectAll | FrameSet int

record timeline =
  counter :: nat
  frame_offset :: "int option"
  seq_ed_sequences :: "meta list"
  annotation_layers :: "int list list"
  frame_current :: int
  host_calls :: "host_call list"

definition call_host :: "host_call \<Rightarrow> timeline \<Rightarrow> timeline" where
  "call_host c s = s\<lparr>host_calls := host_calls s @ [c]\<rparr>"

definition frame_set :: "int \<Rightarrow> timeline \<Rightarrow> timeline" where
  "frame_set f s = (call_host (FrameSet f) s)\<lparr>frame_current := f\<rparr>"

section \<open>Shot stacks (sequencer.py, create_shot_stack and get_shot_seq_name)\<close>

definition get_shot_seq_name :: "string \<Rightarrow> kitsu_shot \<Rightarrow> string" where
  "get_shot_seq_name task_name kitsu_shot = shot_name kitsu_shot @ ''_'' @ task_name"

definition no_duration_message :: "kitsu_shot \<Rightarrow> string" where
  "no_duration_message kitsu_shot =
     ''Shot '' @ (case shot_code kitsu_shot of None \<Rightarrow> ''None'' | Some c \<Rightarrow> c)
       @ '': 'duration' is None. Fix it in Kitsu before retrying to load.''"

text \<open>
  Each annotation layer gets an empty frame at the stack's first and last frame when it has
  none there; both tests read the frame list taken before the layer is touched.
\<close>

definition add_empty_frames :: "int \<Rightarrow> int \<Rightarrow> int list \<Rightarrow> int list" where
  "add_empty_frames first_frame last_frame layer_frames =
     layer_frames
       @ (if first_frame \<notin> set layer_frames then [first_frame] else [])
       @ (if last_frame \<notin> set layer_frames then [last_frame] else [])"

text \<open>
  \<open>if not duration: raise ValueError\<close> stops on a duration that is \<open>None\<close> or 0, before
  anything is built. \<open>new_meta\<close> wants an \<open>int\<close> frame start.
\<close>

definition create_shot_stack ::
  "string \<Rightarrow> kitsu_shot \<Rightarrow> int \<Rightarrow> int option \<Rightarrow> timeline \<Rightarrow> meta result \<times> timeline" where
  "create_shot_stack channel_name kitsu_shot channel_index start s =
     (case duration kitsu_shot of
        None \<Rightarrow> (Raised (ValueError (no_duration_message kitsu_shot)), s)
      | Some d \<Rightarrow>
          if d = 0 then (Raised (ValueError (no_duration_message kitsu_shot)), s)
          else
            (case start of
               None \<Rightarrow> (Raised (TypeError ''new_meta: frame_start expected an int type, not NoneType''), s)
             | Some first_frame \<Rightarrow>
                 (let m = \<lparr>meta_name = get_shot_seq_name channel_name kitsu_shot,
                           meta_channel = channel_index,
                           frame_final_start = first_frame,
                           frame_final_duration = d,
                           stax_meta_usage = ''Versions'',
                           meta_shot = kitsu_shot,
                           sequences = []\<rparr>
                  in (Returned m,
                      s\<lparr>seq_ed_sequences := seq_ed_sequences s @ [m],
                        annotation_layers :=
                          map (add_empty_frames first_frame (first_frame + d))
                              (annotation_layers s)\<rparr>))))"

section \<open>Progressive build (ops_timeline.py, build_progressive)\<close>

text \<open>
  An entry of \<open>versions_and_reviews\<close> is a tuple \<open>(task_index, shot_index, version)\<close>;
  \<open>if version\<close> is false for \<open>None\<close>.

  build_progressive calls \<open>create_version_sequence(shot_seq, version)\<close> (ops_timeline.py,
  lines 405 to 408): two positional arguments for a module-level function whose first
  three parameters \<open>self\<close>, \<open>shot_stack\<close> and \<open>kitsu_version\<close> have no default
  (sequencer.py, lines 128 to 134). Python binds \<open>self\<close> and \<open>shot_stack\<close> and raises
  TypeError before the body runs, so this call never creates a strip; the shot stack
  created just before it stays in the timeline.
\<close>

type_synonym mapping_entry = "py_value \<times> py_value \<times> kitsu_version option"

definition call_create_version_sequence ::
  "env \<Rightarrow> meta \<Rightarrow> kitsu_version \<Rightarrow> sequence option result \<times> meta" where
  "call_create_version_sequence e shot_seq version =
     (Raised (TypeError
        ''create_version_sequence() missing 1 required positional argument: kitsu_version''),
      shot_seq)"

definition replace_last :: "'a \<Rightarrow> 'a list \<Rightarrow> 'a list" where
  "replace_last x xs = (if xs = [] then [] else butlast xs @ [x])"

text \<open>
  What follows a returned \<open>version_seq\<close>, lines 410 to 417: a strip that was created is
  locked by \<open>is_user_authorized_to_review()\<close>, a name ops_timeline.py does not have.
\<close>

definition mark_version_seq :: "sequence option \<Rightarrow> meta \<Rightarrow> meta result" where
  "mark_version_seq version_seq shot_seq =
     (case version_seq of
        None \<Rightarrow> Returned shot_seq
      | Some v \<Rightarrow>
          (case unbound_global ''is_user_authorized_to_review'' of
             Raised err \<Rightarrow> Raised err
           | Returned is_user_authorized_to_review \<Rightarrow>
               Returned (shot_seq\<lparr>sequences :=
                 replace_last (v\<lparr>lock := is_user_authorized_to_review, to_build_notes := True\<rparr>)
                              (sequences shot_seq)\<rparr>)))"

definition py_add :: "py_value \<Rightarrow> int \<Rightarrow> int result" where
  "py_add v n =
     (case v of
        PyInt i \<Rightarrow> Returned (i + n)
      | PyNone \<Rightarrow> Raised (TypeError ''unsupported operand type(s) for +: NoneType and int'')
      | PyStr _ \<Rightarrow> Raised (TypeError ''can only concatenate str (not int) to str''))"

definition build_version ::
  "env \<Rightarrow> string \<Rightarrow> py_value \<Rightarrow> kitsu_shot \<Rightarrow> py_value \<Rightarrow> kitsu_version option \<Rightarrow> timeline
     \<Rightarrow> unit result \<times> timeline" where
  "build_version e task_name task_index shot shot_index version s =
     (case version of
        None \<Rightarrow> (Returned (), s)
      | Some v \<Rightarrow>
          (case py_add task_index 1 of
             Raised err \<Rightarrow> (Raised err, s)
           | Returned channel_index \<Rightarrow>
               (case create_shot_stack task_name shot channel_index
                       (if shot_index \<noteq> PyInt 0 then frame_offset s else Some 0) s of
                  (Raised err, s1) \<Rightarrow> (Raised err, s1)
                | (Returned shot_seq, s1) \<Rightarrow>
                    (case call_create_version_sequence e shot_seq v of
                       (Raised err, shot_seq1) \<Rightarrow>
                         (Raised err,
                          s1\<lparr>seq_ed_sequences := replace_last shot_seq1 (seq_ed_sequences s1)\<rparr>)
                     | (Returned version_seq, shot_seq1) \<Rightarrow>
                         (case mark_version_seq version_seq shot_seq1 of
                            Raised err \<Rightarrow>
                              (Raised err,
                               s1\<lparr>seq_ed_sequences :=
                                    replace_last shot_seq1 (seq_ed_sequences s1)\<rparr>)
                          | Returned marked \<Rightarrow>
                              (case duration shot of
                                 None \<Rightarrow>
                                   (Raised (TypeError
                                      ''frame_final_duration expected an int type, not NoneType''),
                                    s1\<lparr>seq_ed_sequences :=
                                         replace_last marked (seq_ed_sequences s1)\<rparr>)
                               | Some d \<Rightarrow>
                                   (Returned (),
                                    s1\<lparr>seq_ed_sequences :=
                                         replace_last (marked\<lparr>frame_final_duration := d\<rparr>)
                                                      (seq_ed_sequences s1)\<rparr>)))))))"

text \<open>
  Lines 422 to 428: the first shot of a channel restarts the accumulator at its own
  duration, any other shot adds its duration; then the cursor moves on. \<open>+=\<close> raises
  TypeError when either side is \<open>None\<close>.
\<close>

definition offset_shots :: "py_value \<Rightarrow> int option \<Rightarrow> timeline \<Rightarrow> unit result \<times> timeline" where
  "offset_shots shot_index shot_duration s =
     (if shot_index = PyInt 0
      then (Returned (), s\<lparr>frame_offset := shot_duration, counter := counter s + 1\<rparr>)
      else
        (case (frame_offset s, shot_duration) of
           (Some f, Some d) \<Rightarrow>
             (Returned (), s\<lparr>frame_offset := Some (f + d), counter := counter s + 1\<rparr>)
         | _ \<Rightarrow> (Raised (TypeError ''unsupported operand type(s) for +=''), s)))"

text \<open>One turn of the loop past the stopper: lines 382 to 428.\<close>

definition refresh_every_85 :: "timeline \<Rightarrow> timeline" where
  "refresh_every_85 s = (if counter s mod 85 = 0 then call_host RefreshAll s else s)"

definition build_entry ::
  "env \<Rightarrow> string list \<Rightarrow> kitsu_shot list \<Rightarrow> mapping_entry \<Rightarrow> timeline
     \<Rightarrow> unit result \<times> timeline" where
  "build_entry e selected_tasks kitsu_shots entry s0 =
     (let s = refresh_every_85 s0
      in case entry of
           (task_index, shot_index, version) \<Rightarrow>
             (case py_getitem selected_tasks task_index of
                Raised err \<Rightarrow> (Raised err, s)
              | Returned task_name \<Rightarrow>
                  (case py_getitem kitsu_shots shot_index of
                     Raised err \<Rightarrow> (Raised err, s)
                   | Returned shot \<Rightarrow>
                       (case build_version e task_name task_index shot shot_index version s of
                          (Raised err, s1) \<Rightarrow> (Raised err, s1)
                        | (Returned _, s1) \<Rightarrow> offset_shots shot_index (duration shot) s1))))"

text \<open>The stopper's one-time finalisation: lines 362 to 380.\<close>

definition finalize :: "string \<Rightarrow> timeline \<Rightarrow> timeline" where
  "finalize shot_to_load s =
     (let s1 = call_host DeselectAll (call_host RefreshAll (call_host ViewAll s));
          s2 = (if shot_to_load \<noteq> [] then
                  (case find (\<lambda>m. meta_name m = shot_to_load) (seq_ed_sequences s1) of
                     None \<Rightarrow> s1
                   | Some m \<Rightarrow> frame_set (frame_final_start m) s1)
                else s1)
      in frame_set (frame_current s2) s2)"

text \<open>
  \<open>for _ in range(5)\<close>, by the turns left. The timer function returns \<open>None\<close> from the
  stopper (the host then drops the timer), 0 after five entries (run again at once) and
  1 while the animation plays (run again in a second).
\<close>

fun build_loop ::
  "nat \<Rightarrow> env \<Rightarrow> string list \<Rightarrow> kitsu_shot list \<Rightarrow> mapping_entry list \<Rightarrow> string \<Rightarrow> timeline
     \<Rightarrow> int option result \<times> timeline" where
  "build_loop 0 e selected_tasks kitsu_shots versions_and_reviews shot_to_load s =
     (Returned (Some 0), s)"
| "build_loop (Suc n) e selected_tasks kitsu_shots versions_and_reviews shot_to_load s =
     (if counter s \<ge> length versions_and_reviews
      then (Returned None, finalize shot_to_load s)
      else
        (case build_entry e selected_tasks kitsu_shots (versions_and_reviews ! counter s) s of
           (Raised err, s1) \<Rightarrow> (Raised err, s1)
         | (Returned _, s1) \<Rightarrow>
             build_loop n e selected_tasks kitsu_shots versions_and_reviews shot_to_load s1))"

definition build_progressive ::
  "env \<Rightarrow> bool \<Rightarrow> string list \<Rightarrow> kitsu_shot list \<Rightarrow> mapping_entry list \<Rightarrow> string \<Rightarrow> timeline
     \<Rightarrow> int option result \<times> timeline" where
  "build_progressive e is_animation_playing selected_tasks kitsu_shots versions_and_reviews
       shot_to_load s =
     (if is_animation_playing then (Returned (Some 1), s)
      else build_loop 5 e selected_tasks kitsu_shots versions_and_reviews shot_to_load s)"

section \<open>The host's timer\<close>

text \<open>
  \<open>bpy.app.timers\<close> calls the registered function again while it returns a number and
  drops it when it returns \<open>None\<close> or raises. One element of \<open>ticks\<close> is one call of the
  timer: whether the animation is playing at that moment. When the ticks run out the
  timer is still registered.
\<close>

datatype timer_end = TimerRaised error | TimerDone | TimerPending

fun run_timer ::
  "env \<Rightarrow> bool list \<Rightarrow> string list \<Rightarrow> kitsu_shot list \<Rightarrow> mapping_entry list \<Rightarrow> string \<Rightarrow> timeline
     \<Rightarrow> timer_end \<times> timeline" where
  "run_timer e [] selected_tasks kitsu_shots versions_and_reviews shot_to_load s =
     (TimerPending, s)"
| "run_timer e (playing # ticks) selected_tasks kitsu_shots versions_and_reviews shot_to_load s =
     (case build_progressive e playing selected_tasks kitsu_shots versions_and_reviews
             shot_to_load s of
        (Raised err, s1) \<Rightarrow> (TimerRaised err, s1)
      | (Returned None, s1) \<Rightarrow> (TimerDone, s1)
      | (Returned (Some delay), s1) \<Rightarrow>
          run_timer e ticks selected_tasks kitsu_shots versions_and_reviews shot_to_load s1)"

section \<open>Loading a timeline (ops_timeline.py, LoadTimelineBase.execute)\<close>

text \<open>
  Lines 257 to 277 fill \<open>editing_versions_mapping\<close>, a list of \<open>tasks_total * shots_total\<close>
  placeholders \<open>(None, None, None)\<close>, slot by slot. The source fetches no shots yet
  (\<open>kitsu_shots = []  # TODO\<close>) and matches no version (\<open>last_version = None  # TODO\<close>):
  the shots are a parameter here, the version is \<open>None\<close> as written. \<open>last_versions\<close> is
  written and never read; it is left out.

  The outer loop is \<open>for i, channel in reversed(selected_channels)\<close> over a list of
  channel names: each name, a \<open>str\<close>, is unpacked into \<open>i\<close> and \<open>channel\<close>. A name of two
  characters gives two one-character strings; any other length raises ValueError.
\<close>

definition unpack_pair :: "string \<Rightarrow> (py_value \<times> py_value) result" where
  "unpack_pair name =
     (case name of
        [] \<Rightarrow> Raised (ValueError ''not enough values to unpack (expected 2, got 0)'')
      | [a] \<Rightarrow> Raised (ValueError ''not enough values to unpack (expected 2, got 1)'')
      | [a, b] \<Rightarrow> Returned (PyStr [a], PyStr [b])
      | _ \<Rightarrow> Raised (ValueError ''too many values to unpack (expected 2)''))"

record load_acc =
  editing_versions_mapping :: "mapping_entry list"
  scene_frame_end :: int
  version_index :: nat

fun map_shots :: "py_value \<Rightarrow> nat \<Rightarrow> kitsu_shot list \<Rightarrow> load_acc \<Rightarrow> load_acc result" where
  "map_shots i j [] acc = Returned acc"
| "map_shots i j (shot # shots) acc =
     (case (if i = PyInt 0
            then (case duration shot of
                    None \<Rightarrow> Raised (TypeError ''unsupported operand type(s) for +='')
                  | Some d \<Rightarrow> Returned (scene_frame_end acc + d))
            else Returned (scene_frame_end acc)) of
        Raised err \<Rightarrow> Raised err
      | Returned frame_end \<Rightarrow>
          if version_index acc < length (editing_versions_mapping acc)
          then map_shots i (Suc j) shots
                 (acc\<lparr>editing_versions_mapping :=
                         (editing_versions_mapping acc)
                           [version_index acc := (i, PyInt (int j), None)],
                       scene_frame_end := frame_end,
                       version_index := version_index acc + 1\<rparr>)
          else Raised (IndexError ''list assignment index out of range''))"

fun map_channels :: "string list \<Rightarrow> kitsu_shot list \<Rightarrow> load_acc \<Rightarrow> load_acc result" where
  "map_channels [] kitsu_shots acc = Returned acc"
| "map_channels (name # names) kitsu_shots acc =
     (case unpack_pair name of
        Raised err \<Rightarrow> Raised err
      | Returned (i, channel) \<Rightarrow>
          (case map_shots i 0 kitsu_shots acc of
             Raised err \<Rightarrow> Raised err
           | Returned acc1 \<Rightarrow> map_channels names kitsu_shots acc1))"

definition build_mapping :: "string list \<Rightarrow> kitsu_shot list \<Rightarrow> load_acc result" where
  "build_mapping selected_channels kitsu_shots =
     (let tasks_total = length selected_channels;
          shots_total = length kitsu_shots
      in map_channels (rev selected_channels) kitsu_shots
           \<lparr>editing_versions_mapping =
              replicate (tasks_total * shots_total) (PyNone, PyNone, None),
            scene_frame_end = 0,
            version_index = 0\<rparr>)"

text \<open>
  For the statement of what the load writes: the slots of one channel over n shots, when
  the channel's name has two characters, hold the name's first character where the
  channel's index was meant.
\<close>

definition channel_entries :: "string \<Rightarrow> nat \<Rightarrow> mapping_entry list" where
  "channel_entries name n = map (\<lambda>j. (PyStr [name ! 0], PyInt (int j), None)) [0..<n]"

text \<open>
  execute up to the registration of the timer: a timeline that still has strips is
  cleared and the two globals are reset (lines 228 to 234), then the mapping is built
  and the view framed. A raise while the mapping is built ends execute before the timer
  is registered. The scene's tracks, cleared and added again one per channel, are not
  read by the build and are left out, as is what execute does after registering the
  timer (frame rate, saving the session file), which does not touch the timeline.
\<close>

definition load_timeline ::
  "string list \<Rightarrow> kitsu_shot list \<Rightarrow> timeline \<Rightarrow> mapping_entry list result \<times> timeline" where
  "load_timeline selected_channels kitsu_shots s =
     (let s1 = (if length (seq_ed_sequences s) > 0
                then s\<lparr>seq_ed_sequences := [], counter := 0, frame_offset := Some 0\<rparr>
                else s)
      in case build_mapping selected_channels kitsu_shots of
           Raised err \<Rightarrow> (Raised err, s1)
         | Returned acc \<Rightarrow> (Returned (editing_versions_mapping acc), call_host ViewAll s1))"

text \<open>
  One sync pass: load, then the timer until it ends or the ticks run out. A load that
  raises ends the pass with its error.
\<close>

definition sync_pass ::
  "env \<Rightarrow> string list \<Rightarrow> kitsu_shot list \<Rightarrow> string \<Rightarrow> bool list \<Rightarrow> timeline
     \<Rightarrow> timer_end \<times> timeline" where
  "sync_pass e selected_channels kitsu_shots shot_to_load ticks s =
     (case load_timeline selected_channels kitsu_shots s of
        (Raised err, s1) \<Rightarrow> (TimerRaised err, s1)
      | (Returned versions_and_reviews, s1) \<Rightarrow>
          run_timer e ticks selected_channels kitsu_shots versions_and_reviews shot_to_load s1)"

text \<open>The version strips of a timeline: every strip inside every shot stack.\<close>

definition version_containers :: "timeline \<Rightarrow> sequence list" where
  "version_containers s = concat (map sequences (seq_ed_sequences s))"

section \<open>Reviews (sequencer.py, edit_review and build_reviews)\<close>

text \<open>
  A tracker note, and the review built for a version. \<open>orio.MediaReview(path)\<close> starts
  with no note; its status stays as the library made it unless the version has one.
\<close>

record kitsu_note =
  note_id :: string
  parent_id :: "string option"
  user_name :: string
  creation_date :: string
  note_body :: string

record orio_note =
  note_author :: string
  note_date :: string
  note_contents :: "string list"
  parent_note :: "string option"

record media_review =
  media :: string
  review_status :: "orio_status option"
  review_notes :: "orio_note list"

text \<open>
  edit_review takes the statuses and the version, and no notes. Its loop over the notes
  (lines 411 to 456) runs over \<open>kitsu_notes = []  # TODO\<close>. The first statement of the
  loop's body reads \<open>drawing_on_transparent_bg\<close>, which the module does not have: a
  first note would raise NameError before any note is added to the review.
\<close>

definition review_contents :: "kitsu_note list \<Rightarrow> media_review \<Rightarrow> media_review result" where
  "review_contents kitsu_notes orio_review =
     (case kitsu_notes of
        [] \<Rightarrow> Returned orio_review
      | note # notes \<Rightarrow> unbound_global ''drawing_on_transparent_bg'')"

definition edit_review ::
  "(string \<rightharpoonup> string list) \<Rightarrow> kitsu_version \<Rightarrow> media_review option result" where
  "edit_review available_statuses version =
     (case movie_path version of
        None \<Rightarrow> Returned None
      | Some version_clip_path \<Rightarrow>
          if version_clip_path = [] then Returned None
          else
            (let orio_review = \<lparr>media = version_clip_path, review_status = None,
                                review_notes = []\<rparr>;
                 kitsu_notes = []
             in case status version of
                  None \<Rightarrow>
                    (case review_contents kitsu_notes orio_review of
                       Raised err \<Rightarrow> Raised err
                     | Returned review \<Rightarrow> Returned (Some review))
                | Some kitsu_status \<Rightarrow>
                    (case build_orio_status available_statuses (Some kitsu_status) of
                       Raised err \<Rightarrow> Raised err
                     | Returned st \<Rightarrow>
                         (case review_contents kitsu_notes
                                 (orio_review\<lparr>review_status := Some st\<rparr>) of
                            Raised err \<Rightarrow> Raised err
                          | Returned review \<Rightarrow> Returned (Some review)))))"

text \<open>
  build_reviews, lines 350 to 376: one slot per version, \<open>None\<close> for a version that is
  \<open>None\<close> (\<open>continue\<close>). For any other version the incoming notes are walked first,
  and the body of that loop, line 360, appends \<open>attach_to_dl\<close>, a name the module does
  not have: with at least one note the call raises NameError there. With no note
  edit_review is called, and then line 370 starts the download with \<open>Process(...)\<close>,
  which sequencer.py does not import: NameError again, and the review just built is
  lost with the local list that held it. So the loop never gets past a version that is
  not \<open>None\<close>, and the call returns only when every version is \<open>None\<close>. The incoming
  notes are never passed to edit_review. The directories made in \<open>cache_dir\<close> are
  left out.
\<close>

fun build_reviews_loop ::
  "(string \<rightharpoonup> string list) \<Rightarrow> kitsu_note list \<Rightarrow> kitsu_version option list
     \<Rightarrow> media_review option list result" where
  "build_reviews_loop available_statuses kitsu_notes [] = Returned []"
| "build_reviews_loop available_statuses kitsu_notes (None # versions) =
     (case build_reviews_loop available_statuses kitsu_notes versions of
        Raised err \<Rightarrow> Raised err
      | Returned reviews \<Rightarrow> Returned (None # reviews))"
| "build_reviews_loop available_statuses kitsu_notes (Some version # versions) =
     (case kitsu_notes of
        kitsu_note # notes \<Rightarrow> unbound_global ''attach_to_dl''
      | [] \<Rightarrow>
          (case edit_review available_statuses version of
             Raised err \<Rightarrow> Raised err
           | Returned review \<Rightarrow> unbound_global ''Process''))"

definition build_reviews ::
  "(string \<rightharpoonup> string list) \<Rightarrow> kitsu_version option list \<Rightarrow> kitsu_note list
     \<Rightarrow> media_review option list result" where
  "build_reviews available_statuses kitsu_versions kitsu_notes =
     build_reviews_loop available_statuses kitsu_notes kitsu_versions"

section \<open>Stored credentials (ops_session.py, encode_password and decode_password)\<close>

text \<open>
  \<open>encode_password(p)\<close> is \<open>base64.b64encode(p.encode("utf-8")).decode("utf-8")\<close> and
  \<open>decode_password(s)\<close> is \<open>base64.b64decode(s).decode("utf-8") if s else ""\<close>. What the
  two functions call is Python's standard library, modelled here: a \<open>str\<close> is its
  list of code points, \<open>bytes\<close> the list of its octets; the UTF-8 codec is the strict
  one (no surrogate is encoded; overlong forms, surrogates and values past U+10FFFF are
  not decoded); \<open>b64encode\<close> is RFC 4648 with padding; \<open>b64decode\<close> of a \<open>str\<close>
  wants ASCII and then runs binascii's \<open>a2b_base64\<close> without strict mode, which skips
  what is not in the alphabet, stops at sufficient padding and raises on a quantum left
  open.
\<close>

type_synonym py_str = "nat list"
type_synonym py_bytes = "nat list"

definition utf8_bytes :: "nat \<Rightarrow> py_bytes" where
  "utf8_bytes c =
     (if c < 0x80 then [c]
      else if c < 0x800 then [0xC0 + c div 0x40, 0x80 + c mod 0x40]
      else if c < 0x10000 then
        [0xE0 + c div 0x1000, 0x80 + c div 0x40 mod 0x40, 0x80 + c mod 0x40]
      else
        [0xF0 + c div 0x40000, 0x80 + c div 0x1000 mod 0x40, 0x80 + c div 0x40 mod 0x40,
         0x80 + c mod 0x40])"

definition is_surrogate :: "nat \<Rightarrow> bool" where
  "is_surrogate c = (0xD800 \<le> c \<and> c \<le> 0xDFFF)"

fun utf8_encode :: "py_str \<Rightarrow> py_bytes result" where
  "utf8_encode [] = Returned []"
| "utf8_encode (c # cs) =
     (if is_surrogate c then Raised UnicodeEncodeError
      else case utf8_encode cs of
             Raised err \<Rightarrow> Raised err
           | Returned bs \<Rightarrow> Returned (utf8_bytes c @ bs))"

definition is_continuation :: "nat \<Rightarrow> bool" where
  "is_continuation b = (0x80 \<le> b \<and> b < 0xC0)"

fun utf8_decode :: "py_bytes \<Rightarrow> py_str result" where
  "utf8_decode [] = Returned []"
| "utf8_decode (b0 # bs) =
     (if b0 < 0x80 then
        (case utf8_decode bs of Raised err \<Rightarrow> Raised err | Returned cs \<Rightarrow> Returned (b0 # cs))
      else if 0xC0 \<le> b0 \<and> b0 < 0xE0 then
        (case bs of
           b1 # r \<Rightarrow>
             (let c = (b0 - 0xC0) * 0x40 + (b1 - 0x80)
              in if is_continuation b1 \<and> 0x80 \<le> c then
                   (case utf8_decode r of
                      Raised err \<Rightarrow> Raised err
                    | Returned cs \<Rightarrow> Returned (c # cs))
                 else Raised UnicodeDecodeError)
         | _ \<Rightarrow> Raised UnicodeDecodeError)
      else if 0xE0 \<le> b0 \<and> b0 < 0xF0 then
        (case bs of
           b1 # b2 # r \<Rightarrow>
             (let c = (b0 - 0xE0) * 0x1000 + (b1 - 0x80) * 0x40 + (b2 - 0x80)
              in if is_continuation b1 \<and> is_continuation b2 \<and> 0x800 \<le> c \<and> \<not> is_surrogate c
                 then (case utf8_decode r of
                         Raised err \<Rightarrow> Raised err
                       | Returned cs \<Rightarrow> Returned (c # cs))
                 else Raised UnicodeDecodeError)
         | _ \<Rightarrow> Raised UnicodeDecodeError)
      else if 0xF0 \<le> b0 \<and> b0 < 0xF8 then
        (case bs of
           b1 # b2 # b3 # r \<Rightarrow>
             (let c = (b0 - 0xF0) * 0x40000 + (b1 - 0x80) * 0x1000 + (b2 - 0x80) * 0x40
                        + (b3 - 0x80)
              in if is_continuation b1 \<and> is_continuation b2 \<and> is_continuation b3
                    \<and> 0x10000 \<le> c \<and> c < 0x110000
                 then (case utf8_decode r of
                         Raised err \<Rightarrow> Raised err
                       | Returned cs \<Rightarrow> Returned (c # cs))
                 else Raised UnicodeDecodeError)
         | _ \<Rightarrow> Raised UnicodeDecodeError)
      else Raised UnicodeDecodeError)"

definition b64_char :: "nat \<Rightarrow> nat" where
  "b64_char v =
     (if v < 26 then 65 + v
      else if v < 52 then 97 + (v - 26)
      else if v < 62 then 48 + (v - 52)
      else if v = 62 then 43
      else 47)"

fun b2a_base64 :: "py_bytes \<Rightarrow> py_bytes" where
  "b2a_base64 [] = []"
| "b2a_base64 [a] = [b64_char (a div 4), b64_char (a mod 4 * 16), 61, 61]"
| "b2a_base64 [a, b] =
     [b64_char (a div 4), b64_char (a mod 4 * 16 + b div 16), b64_char (b mod 16 * 4), 61]"
| "b2a_base64 (a # b # c # r) =
     [b64_char (a div 4), b64_char (a mod 4 * 16 + b div 16),
      b64_char (b mod 16 * 4 + c div 64), b64_char (c mod 64)] @ b2a_base64 r"

definition table_a2b_base64 :: "nat \<Rightarrow> nat option" where
  "table_a2b_base64 ch =
     (if 65 \<le> ch \<and> ch \<le> 90 then Some (ch - 65)
      else if 97 \<le> ch \<and> ch \<le> 122 then Some (ch - 97 + 26)
      else if 48 \<le> ch \<and> ch \<le> 57 then Some (ch - 48 + 52)
      else if ch = 43 then Some 62
      else if ch = 47 then Some 63
      else None)"

fun a2b_loop :: "py_bytes \<Rightarrow> nat \<Rightarrow> nat \<Rightarrow> nat \<Rightarrow> py_bytes \<Rightarrow> py_bytes result" where
  "a2b_loop [] quad_pos leftchar pads out =
     (if quad_pos = 0 then Returned out
      else if quad_pos = 1 then
        Raised (BinasciiError
          ''Invalid base64-encoded string: number of data characters cannot be 1 more than a multiple of 4'')
      else Raised (BinasciiError ''Incorrect padding''))"
| "a2b_loop (ch # rest) quad_pos leftchar pads out =
     (if ch = 61 then
        (if quad_pos \<ge> 2 \<and> quad_pos + (pads + 1) \<ge> 4 then Returned out
         else a2b_loop rest quad_pos leftchar (if quad_pos \<ge> 2 then pads + 1 else pads) out)
      else
        (case table_a2b_base64 ch of
           None \<Rightarrow> a2b_loop rest quad_pos leftchar pads out
         | Some v \<Rightarrow>
             if quad_pos = 0 then a2b_loop rest 1 v 0 out
             else if quad_pos = 1 then
               a2b_loop rest 2 (v mod 16) 0 (out @ [leftchar * 4 + v div 16])
             else if quad_pos = 2 then
               a2b_loop rest 3 (v mod 4) 0 (out @ [leftchar * 16 + v div 4])
             else a2b_loop rest 0 0 0 (out @ [leftchar * 64 + v])))"

definition a2b_base64 :: "py_bytes \<Rightarrow> py_bytes result" where
  "a2b_base64 data = a2b_loop data 0 0 0 []"

definition b64encode :: "py_bytes \<Rightarrow> py_bytes" where
  "b64encode s = b2a_base64 s"

definition b64decode :: "py_str \<Rightarrow> py_bytes result" where
  "b64decode s =
     (if \<forall>c \<in> set s. c < 0x80 then a2b_base64 s
      else Raised (ValueError ''string argument should contain only ASCII characters''))"

definition encode_password :: "py_str \<Rightarrow> py_str result" where
  "encode_password password =
     (case utf8_encode password of
        Raised err \<Rightarrow> Raised err
      | Returned bs \<Rightarrow> utf8_decode (b64encode bs))"

definition decode_password :: "py_str \<Rightarrow> py_str result" where
  "decode_password password =
     (if password \<noteq> [] then
        (case b64decode password of
           Raised err \<Rightarrow> Raised err
         | Returned bs \<Rightarrow> utf8_decode bs)
      else Returned [])"

text \<open>A code point that UTF-8 encodes: a Unicode scalar value.\<close>

definition unicode_scalar :: "nat \<Rightarrow> bool" where
  "unicode_scalar c = (c < 0x110000 \<and> \<not> is_surrogate c)"

section \<open>Concrete inputs\<close>

text \<open>
  An environment, a status taxonomy, an empty timeline and shots to evaluate the model
  on: every path is a movie file that exists and that the host accepts.
\<close>

definition plain_env :: env where
  "plain_env =
     \<lparr>is_file = (\<lambda>p. True),
      suffix_lower = (\<lambda>p. ''.mp4''),
      path_str = (\<lambda>p. p),
      host_new_sequence = (\<lambda>ty p. True)\<rparr>"

definition studio_statuses :: "string \<rightharpoonup> string list" where
  "studio_statuses = [''approved'' \<mapsto> [''done''], ''rejected'' \<mapsto> [''retake'']]"

definition empty_timeline :: timeline where
  "empty_timeline =
     \<lparr>counter = 0, frame_offset = Some 0, seq_ed_sequences = [], annotation_layers = [[]],
      frame_current = 1, host_calls = []\<rparr>"

definition shot_of :: "string \<Rightarrow> int option \<Rightarrow> kitsu_shot" where
  "shot_of n d = \<lparr>shot_name = n, shot_code = Some n, duration = d\<rparr>"

definition clip :: kitsu_version where
  "clip = \<lparr>movie_path = Some ''/media/sh010_v001.mp4'', status = Some ''done''\<rparr>"

definition three_shots_24_48_12 :: "kitsu_shot list" where
  "three_shots_24_48_12 =
     [shot_of ''sh010'' (Some 24), shot_of ''sh020'' (Some 48), shot_of ''sh030'' (Some 12)]"

definition empty_stack :: meta where
  "empty_stack =
     \<lparr>meta_name = ''sh010_anim'', meta_channel = 1, frame_final_start = 0,
      frame_final_duration = 24, stax_meta_usage = ''Versions'',
      meta_shot = shot_of ''sh010'' (Some 24), sequences = []\<rparr>"

definition orphan_note :: kitsu_note where
  "orphan_note =
     \<lparr>note_id = ''note-2'', parent_id = Some ''note-1'', user_name = ''supervisor'',
      creation_date = ''2021-06-01T10:00:00'', note_body = ''Retake the arc''\<rparr>"

section \<open>Theorems\<close>

subsection \<open>What one turn of the build loop changes\<close>

lemma call_host_fields [simp]:
  "counter (call_host c s) = counter s"
  "frame_offset (call_host c s) = frame_offset s"
  "seq_ed_sequences (call_host c s) = seq_ed_sequences s"
  "annotation_layers (call_host c s) = annotation_layers s"
  "frame_current (call_host c s) = frame_current s"
  by (simp_all add: call_host_def)

lemma frame_set_fields [simp]:
  "counter (frame_set f s) = counter s"
  "frame_offset (frame_set f s) = frame_offset s"
  "seq_ed_sequences (frame_set f s) = seq_ed_sequences s"
  "annotation_layers (frame_set f s) = annotation_layers s"
  by (simp_all add: frame_set_def)

lemma finalize_fields [simp]:
  "counter (finalize stl s) = counter s"
  "frame_offset (finalize stl s) = frame_offset s"
  "seq_ed_sequences (finalize stl s) = seq_ed_sequences s"
  "annotation_layers (finalize stl s) = annotation_layers s"
  by (simp_all add: finalize_def Let_def split: option.splits)

lemma refresh_every_85_fields [simp]:
  "counter (refresh_every_85 s) = counter s"
  "frame_offset (refresh_every_85 s) = frame_offset s"
  "seq_ed_sequences (refresh_every_85 s) = seq_ed_sequences s"
  "annotation_layers (refresh_every_85 s) = annotation_layers s"
  "frame_current (refresh_every_85 s) = frame_current s"
  by (simp_all add: refresh_every_85_def)

lemma create_shot_stack_Raised:
  "create_shot_stack task shot ci start s = (Raised err, s1) \<Longrightarrow> s1 = s"
  by (auto simp: create_shot_stack_def Let_def split: option.splits if_splits)

lemma create_shot_stack_Returned:
  "create_shot_stack task shot ci start s = (Returned m, s1) \<Longrightarrow>
     (\<exists>d f. duration shot = Some d \<and> d \<noteq> 0 \<and> start = Some f
        \<and> m = \<lparr>meta_name = get_shot_seq_name task shot, meta_channel = ci,
                 frame_final_start = f, frame_final_duration = d,
                 stax_meta_usage = ''Versions'', meta_shot = shot, sequences = []\<rparr>
        \<and> s1 = s\<lparr>seq_ed_sequences := seq_ed_sequences s @ [m],
                  annotation_layers := map (add_empty_frames f (f + d)) (annotation_layers s)\<rparr>)"
  by (auto simp: create_shot_stack_def Let_def split: option.splits if_splits)

lemma build_version_Returned:
  "build_version e task ti shot sj version s = (Returned u, s1) \<Longrightarrow> version = None \<and> s1 = s"
  by (auto simp: build_version_def call_create_version_sequence_def
           split: option.splits result.splits prod.splits)

lemma build_version_counter:
  "build_version e task ti shot sj version s = (r, s1) \<Longrightarrow>
     counter s1 = counter s \<and> frame_offset s1 = frame_offset s"
  by (auto simp: build_version_def call_create_version_sequence_def
           dest!: create_shot_stack_Raised create_shot_stack_Returned
           split: option.splits result.splits prod.splits)

lemma offset_shots_Returned:
  "offset_shots sj d s = (Returned u, s1) \<Longrightarrow>
     s1 = s\<lparr>frame_offset := (if sj = PyInt 0 then d
                              else Some (the (frame_offset s) + the d)),
             counter := counter s + 1\<rparr>"
  by (auto simp: offset_shots_def split: if_splits option.splits)

lemma offset_shots_Raised:
  "offset_shots sj d s = (Raised err, s1) \<Longrightarrow> s1 = s"
  by (auto simp: offset_shots_def split: if_splits option.splits)

lemma build_entry_counter:
  "build_entry e tasks shots entry s = (r, s1) \<Longrightarrow>
     counter s1 = (case r of Returned _ \<Rightarrow> counter s + 1 | Raised _ \<Rightarrow> counter s)"
  apply (cases entry)
  apply (auto simp: build_entry_def Let_def
           split: result.splits prod.splits if_splits
           dest!: build_version_counter offset_shots_Returned offset_shots_Raised)
  done

lemma build_loop_counter_bounds:
  "build_loop n e tasks shots q stl s = (r, s1) \<Longrightarrow>
     counter s \<le> counter s1 \<and> counter s1 \<le> counter s + n"
proof (induction n arbitrary: s)
  case 0
  then show ?case by simp
next
  case (Suc n)
  show ?case
  proof (cases "length q \<le> counter s")
    case True
    with Suc.prems show ?thesis by auto
  next
    case False
    obtain r0 s0 where b: "build_entry e tasks shots (q ! counter s) s = (r0, s0)"
      by (cases "build_entry e tasks shots (q ! counter s) s")
    show ?thesis
    proof (cases r0)
      case (Raised err)
      with b False Suc.prems build_entry_counter [OF b] show ?thesis by auto
    next
      case (Returned u)
      with b False Suc.prems have "build_loop n e tasks shots q stl s0 = (r, s1)" by auto
      from Suc.IH [OF this] build_entry_counter [OF b] Returned show ?thesis by auto
    qed
  qed
qed

lemma build_loop_Returned:
  "build_loop n e tasks shots q stl s = (Returned r, s1) \<Longrightarrow>
     (if n = 0 \<or> counter s + n \<le> length q then r = Some 0 \<and> counter s1 = counter s + n
      else r = None \<and> counter s1 = max (counter s) (length q))"
proof (induction n arbitrary: s)
  case 0
  then show ?case by simp
next
  case (Suc n)
  show ?case
  proof (cases "length q \<le> counter s")
    case True
    with Suc.prems show ?thesis by auto
  next
    case False
    obtain r0 s0 where b: "build_entry e tasks shots (q ! counter s) s = (r0, s0)"
      by (cases "build_entry e tasks shots (q ! counter s) s")
    show ?thesis
    proof (cases r0)
      case (Raised err)
      with b False Suc.prems show ?thesis by auto
    next
      case (Returned u)
      with b False Suc.prems have l: "build_loop n e tasks shots q stl s0 = (Returned r, s1)"
        by auto
      from build_entry_counter [OF b] Returned have c: "counter s0 = counter s + 1" by simp
      from Suc.IH [OF l] c False show ?thesis by (auto split: if_splits)
    qed
  qed
qed



lemma build_entry_no_version:
  assumes "py_getitem tasks task_index = Returned task_name"
    and "py_getitem shots shot_index = Returned shot"
  shows "build_entry e tasks shots (task_index, shot_index, None) s
           = offset_shots shot_index (duration shot) (refresh_every_85 s)"
  using assms by (simp add: build_entry_def build_version_def)

lemma build_entry_version:
  assumes "py_getitem tasks (PyInt ti) = Returned task_name"
    and "py_getitem shots shot_index = Returned shot"
    and "duration shot = Some d" and "d \<noteq> 0"
    and "(if shot_index \<noteq> PyInt 0 then frame_offset s else Some 0) = Some f"
  shows "build_entry e tasks shots (PyInt ti, shot_index, Some v) s
           = (Raised (TypeError
                ''create_version_sequence() missing 1 required positional argument: kitsu_version''),
              (refresh_every_85 s)
                \<lparr>seq_ed_sequences := seq_ed_sequences s
                   @ [\<lparr>meta_name = get_shot_seq_name task_name shot, meta_channel = ti + 1,
                       frame_final_start = f, frame_final_duration = d,
                       stax_meta_usage = ''Versions'', meta_shot = shot, sequences = []\<rparr>],
                 annotation_layers := map (add_empty_frames f (f + d)) (annotation_layers s)\<rparr>)"
proof -
  from assms(5) have "(if shot_index \<noteq> PyInt 0 then frame_offset (refresh_every_85 s) else Some 0)
      = Some f" by (simp split: if_splits)
  with assms(1-4) show ?thesis
    by (simp add: build_entry_def build_version_def py_add_def create_shot_stack_def
        call_create_version_sequence_def replace_last_def Let_def)
qed

lemma build_loop_raised:
  "counter s < length q \<Longrightarrow> build_entry e tasks shots (q ! counter s) s = (Raised err, s1)
     \<Longrightarrow> build_loop (Suc n) e tasks shots q stl s = (Raised err, s1)"
  by simp

lemma build_loop_returned:
  "counter s < length q \<Longrightarrow> build_entry e tasks shots (q ! counter s) s = (Returned u, s1)
     \<Longrightarrow> build_loop (Suc n) e tasks shots q stl s = build_loop n e tasks shots q stl s1"
  by simp

lemma five_turns: "(5::nat) = Suc (Suc (Suc (Suc (Suc 0))))"
  by simp

lemma build_progressive_loop:
  "build_progressive e False tasks shots q stl s
     = build_loop (Suc (Suc (Suc (Suc (Suc 0))))) e tasks shots q stl s"
  by (simp only: build_progressive_def five_turns if_False)

lemma offset_shots_first:
  "offset_shots (PyInt 0) d s = (Returned (), s\<lparr>frame_offset := d, counter := counter s + 1\<rparr>)"
  by (simp add: offset_shots_def)

lemma offset_shots_next:
  "j \<noteq> 0 \<Longrightarrow> frame_offset s = Some f
     \<Longrightarrow> offset_shots (PyInt j) (Some d) s
           = (Returned (), s\<lparr>frame_offset := Some (f + d), counter := counter s + 1\<rparr>)"
  by (simp add: offset_shots_def)

lemma offset_shots_accumulates:
  "offset_shots sj dur s = (Returned u, s1) \<Longrightarrow>
     (sj = PyInt 0 \<longrightarrow> frame_offset s1 = dur)
     \<and> (sj \<noteq> PyInt 0 \<longrightarrow>
          (\<exists>f d. frame_offset s = Some f \<and> dur = Some d \<and> frame_offset s1 = Some (f + d)))"
  by (auto simp: offset_shots_def split: if_splits option.splits)

lemma build_entry_accumulates:
  assumes "py_getitem ks sj = Returned shot"
    and "build_entry e ts ks (ti, sj, ver) s = (Returned u, s1)"
  shows "(sj = PyInt 0 \<longrightarrow> frame_offset s1 = duration shot)
     \<and> (sj \<noteq> PyInt 0 \<longrightarrow>
          (\<exists>f d. frame_offset s = Some f \<and> duration shot = Some d
                 \<and> frame_offset s1 = Some (f + d)))"
proof -
  from assms(2) obtain task where t: "py_getitem ts ti = Returned task"
    by (auto simp: build_entry_def Let_def split: result.splits)
  with assms have "\<exists>s0 x. build_version e task ti shot sj ver (refresh_every_85 s) = (Returned x, s0)
      \<and> offset_shots sj (duration shot) s0 = (Returned u, s1)"
    by (auto simp: build_entry_def Let_def split: result.splits prod.splits)
  then obtain s0 x where bv: "build_version e task ti shot sj ver (refresh_every_85 s) = (Returned x, s0)"
    and os: "offset_shots sj (duration shot) s0 = (Returned u, s1)" by blast
  from build_version_Returned [OF bv] have "s0 = refresh_every_85 s" by simp
  with offset_shots_accumulates [OF os] show ?thesis by simp
qed

lemma offset_shots_sequences:
  "offset_shots sj d s = (r, s1) \<Longrightarrow> seq_ed_sequences s1 = seq_ed_sequences s"
  by (cases r) (auto dest: offset_shots_Returned offset_shots_Raised)

lemma build_entry_stack_start:
  assumes "build_entry e ts ks (ti, sj, ver) s = (r, s1)"
    and "seq_ed_sequences s1 \<noteq> seq_ed_sequences s"
  shows "\<exists>m. seq_ed_sequences s1 = seq_ed_sequences s @ [m]
           \<and> Some (frame_final_start m) = (if sj \<noteq> PyInt 0 then frame_offset s else Some 0)"
  using assms
  apply (auto simp: build_entry_def build_version_def call_create_version_sequence_def
         replace_last_def Let_def
         split: result.splits prod.splits option.splits if_splits
         dest!: create_shot_stack_Raised create_shot_stack_Returned offset_shots_sequences)
  done

subsection \<open>Status mapping\<close>

text \<open>
  C6. For every taxonomy that gives an approved and a rejected label list with no label
  in common, and every raw status: a status among the approved labels maps to the state
  "approved", one among the rejected labels to "rejected", and one in neither to
  "waiting review", always with an empty author. With approved = {validated} and
  rejected = {revision_needed}: validated is approved, revision_needed is rejected and
  in_progress is waiting review.
\<close>

theorem build_orio_status_mapping:
  assumes "available_statuses ''approved'' = Some approved"
    and "available_statuses ''rejected'' = Some rejected"
    and "set approved \<inter> set rejected = {}"
  shows "(version_status \<in> set approved \<longrightarrow>
            build_orio_status available_statuses (Some version_status)
              = Returned \<lparr>state = ''approved'', author = ''''\<rparr>)
       \<and> (version_status \<in> set rejected \<longrightarrow>
            build_orio_status available_statuses (Some version_status)
              = Returned \<lparr>state = ''rejected'', author = ''''\<rparr>)
       \<and> (version_status \<notin> set approved \<union> set rejected \<longrightarrow>
            build_orio_status available_statuses (Some version_status)
              = Returned \<lparr>state = ''waiting review'', author = ''''\<rparr>)"
  using assms by (auto simp: build_orio_status_def py_in_def)

theorem build_orio_status_mapping_witness:
  "build_orio_status
      [''approved'' \<mapsto> [''validated''], ''rejected'' \<mapsto> [''revision_needed'']] (Some ''validated'')
     = Returned \<lparr>state = ''approved'', author = ''''\<rparr>
   \<and> build_orio_status
      [''approved'' \<mapsto> [''validated''], ''rejected'' \<mapsto> [''revision_needed'']] (Some ''revision_needed'')
     = Returned \<lparr>state = ''rejected'', author = ''''\<rparr>
   \<and> build_orio_status
      [''approved'' \<mapsto> [''validated''], ''rejected'' \<mapsto> [''revision_needed'']] (Some ''in_progress'')
     = Returned \<lparr>state = ''waiting review'', author = ''''\<rparr>"
proof -
  let ?t = "[''approved'' \<mapsto> [''validated''], ''rejected'' \<mapsto> [''revision_needed'']]"
  have a: "?t ''approved'' = Some [''validated'']" by simp
  have r: "?t ''rejected'' = Some [''revision_needed'']" by simp
  have d: "set [''validated''] \<inter> set [''revision_needed''] = {}" by simp
  have v: "''validated'' \<in> set [''validated'']" by simp
  have n: "''revision_needed'' \<in> set [''revision_needed'']" by simp
  have p: "''in_progress'' \<notin> set [''validated''] \<union> set [''revision_needed'']" by simp
  from build_orio_status_mapping [OF a r d, of "''validated''"] v
  have 1: "build_orio_status ?t (Some ''validated'')
             = Returned \<lparr>state = ''approved'', author = ''''\<rparr>"
    by blast
  from build_orio_status_mapping [OF a r d, of "''revision_needed''"] n
  have 2: "build_orio_status ?t (Some ''revision_needed'')
             = Returned \<lparr>state = ''rejected'', author = ''''\<rparr>"
    by blast
  from build_orio_status_mapping [OF a r d, of "''in_progress''"] p
  have 3: "build_orio_status ?t (Some ''in_progress'')
             = Returned \<lparr>state = ''waiting review'', author = ''''\<rparr>"
    by blast
  from 1 2 3 show ?thesis by blast
qed

subsection \<open>Playback guard\<close>

text \<open>
  C4. While the host reports that the animation is playing, a tick of build_progressive
  returns 1 at once: not done, to be called again, with the cursor, the frame-offset
  accumulator, the shot stacks and everything else of the timeline exactly as before.
  Any number of such ticks in a row leaves the timer where it was: what the following
  ticks do is what they would have done without them.
\<close>

theorem playback_guard:
  "build_progressive e True selected_tasks kitsu_shots versions_and_reviews shot_to_load s
     = (Returned (Some 1), s)
   \<and> run_timer e (replicate n True @ ticks) selected_tasks kitsu_shots versions_and_reviews
        shot_to_load s
     = run_timer e ticks selected_tasks kitsu_shots versions_and_reviews shot_to_load s"
  by (induction n) (simp_all add: build_progressive_def)

subsection \<open>Batches of five\<close>

text \<open>
  Ticks that return move the cursor five entries at a time: on a queue of 13 entries,
  three ticks that each return end at 5, at 10 and, done, at 13; and no call, on any
  input, moves the cursor by more than 5. A tick returns only when no entry it handles
  carries a version (\<open>build_version_Returned\<close>).
\<close>

lemma returning_ticks_in_batches:
  assumes "length versions_and_reviews = 13" and "counter s0 = 0"
    and "build_progressive e False selected_tasks kitsu_shots versions_and_reviews shot_to_load s0
           = (Returned r1, s1)"
    and "build_progressive e False selected_tasks kitsu_shots versions_and_reviews shot_to_load s1
           = (Returned r2, s2)"
    and "build_progressive e False selected_tasks kitsu_shots versions_and_reviews shot_to_load s2
           = (Returned r3, s3)"
  shows "r1 = Some 0 \<and> counter s1 = 5 \<and> r2 = Some 0 \<and> counter s2 = 10
         \<and> r3 = None \<and> counter s3 = 13
         \<and> counter s \<le> counter (snd (build_progressive e' playing tasks shots q stl s))
         \<and> counter (snd (build_progressive e' playing tasks shots q stl s)) \<le> counter s + 5"
proof -
  from assms(3) have l1: "build_loop 5 e selected_tasks kitsu_shots versions_and_reviews shot_to_load s0
      = (Returned r1, s1)" by (simp add: build_progressive_def)
  from build_loop_Returned [OF l1] assms(1,2) have 1: "r1 = Some 0 \<and> counter s1 = 5" by simp
  from assms(4) have l2: "build_loop 5 e selected_tasks kitsu_shots versions_and_reviews shot_to_load s1
      = (Returned r2, s2)" by (simp add: build_progressive_def)
  from build_loop_Returned [OF l2] assms(1) 1 have 2: "r2 = Some 0 \<and> counter s2 = 10" by simp
  from assms(5) have l3: "build_loop 5 e selected_tasks kitsu_shots versions_and_reviews shot_to_load s2
      = (Returned r3, s3)" by (simp add: build_progressive_def)
  from build_loop_Returned [OF l3] assms(1) 2 have 3: "r3 = None \<and> counter s3 = 13" by simp
  have 4: "counter s \<le> counter (snd (build_progressive e' playing tasks shots q stl s))
         \<and> counter (snd (build_progressive e' playing tasks shots q stl s)) \<le> counter s + 5"
  proof (cases playing)
    case True
    then show ?thesis by (simp add: build_progressive_def)
  next
    case False
    obtain r s' where b: "build_loop 5 e' tasks shots q stl s = (r, s')"
      by (cases "build_loop 5 e' tasks shots q stl s")
    from build_loop_counter_bounds [OF b] b False show ?thesis
      by (simp add: build_progressive_def)
  qed
  from 1 2 3 4 show ?thesis by blast
qed

text \<open>
  A tick whose cursor stands on an entry that carries a version raises and leaves the
  cursor where it was, whatever the tasks, the shots and the rest of the queue; so a
  timer started there never reaches the end of the queue, however many ticks it is given.
\<close>

lemma build_entry_with_version:
  "build_entry e ts ks (ti, sj, Some v) s = (r, s1)
     \<Longrightarrow> (\<exists>err. r = Raised err) \<and> counter s1 = counter s \<and> frame_offset s1 = frame_offset s
         \<and> (seq_ed_sequences s1 = seq_ed_sequences s
              \<or> (\<exists>m. seq_ed_sequences s1 = seq_ed_sequences s @ [m] \<and> sequences m = []))"
  by (auto simp: build_entry_def build_version_def call_create_version_sequence_def
         replace_last_def Let_def
         split: result.splits prod.splits option.splits if_splits
         dest!: create_shot_stack_Raised create_shot_stack_Returned)

lemma tick_on_version:
  assumes "counter s < length q" and "q ! counter s = (ti, sj, Some v)"
  shows "\<exists>err s1. build_progressive e False ts ks q stl s = (Raised err, s1)
           \<and> counter s1 = counter s"
proof -
  obtain r s1 where b: "build_entry e ts ks (q ! counter s) s = (r, s1)"
    by (cases "build_entry e ts ks (q ! counter s) s")
  with assms(2) have "build_entry e ts ks (ti, sj, Some v) s = (r, s1)" by simp
  from build_entry_with_version [OF this] obtain err where r: "r = Raised err"
    and c: "counter s1 = counter s" by blast
  from b r have "build_entry e ts ks (q ! counter s) s = (Raised err, s1)" by simp
  from build_loop_raised [OF assms(1) this, of "Suc (Suc (Suc (Suc 0)))" stl] c
  show ?thesis by (simp add: build_progressive_loop del: build_loop.simps)
qed

lemma timer_on_version:
  assumes "counter s < length q" and "q ! counter s = (ti, sj, Some v)"
  shows "fst (run_timer e ticks ts ks q stl s) \<noteq> TimerDone
       \<and> counter (snd (run_timer e ticks ts ks q stl s)) = counter s"
proof (induction ticks)
  case Nil
  then show ?case by simp
next
  case (Cons playing ticks)
  show ?case
  proof (cases playing)
    case True
    with Cons show ?thesis by (simp add: build_progressive_def)
  next
    case False
    from tick_on_version [OF assms, of e ts ks stl] obtain err s1
      where "build_progressive e False ts ks q stl s = (Raised err, s1)"
        and "counter s1 = counter s" by blast
    with False show ?thesis by simp
  qed
qed

text \<open>
  C3. A queue of 13 entries that carry a version is not drained in three calls of 5, 5
  and 3 entries. The first tick creates the shot stack of the first entry and then
  raises TypeError at the call \<open>create_version_sequence(shot_seq, version)\<close>, which
  gives two arguments to a function that requires three: the cursor is still 0, the
  host drops the timer, and no later tick runs, so the end of the queue is never
  reached. The same queue without versions is drained by three ticks, with the cursor
  at 13.
\<close>

theorem thirteen_versions_never_done:
  "run_timer plain_env [False, False, False] [''anim''] [shot_of ''sh010'' (Some 24)]
       (replicate 13 (PyInt 0, PyInt 0, Some clip)) '''' empty_timeline
     = (TimerRaised (TypeError
          ''create_version_sequence() missing 1 required positional argument: kitsu_version''),
        empty_timeline
          \<lparr>seq_ed_sequences :=
             [\<lparr>meta_name = ''sh010_anim'', meta_channel = 1, frame_final_start = 0,
               frame_final_duration = 24, stax_meta_usage = ''Versions'',
               meta_shot = shot_of ''sh010'' (Some 24), sequences = []\<rparr>],
           annotation_layers := [[0, 24]],
           host_calls := [RefreshAll]\<rparr>)
   \<and> counter (snd (run_timer plain_env [False, False, False] [''anim'']
        [shot_of ''sh010'' (Some 24)] (replicate 13 (PyInt 0, PyInt 0, Some clip)) ''''
        empty_timeline)) = 0
   \<and> run_timer plain_env [False, False, False] [''anim''] [shot_of ''sh010'' (Some 24)]
       (replicate 13 (PyInt 0, PyInt 0, None)) '''' empty_timeline
     = (TimerDone,
        empty_timeline\<lparr>counter := 13, frame_offset := Some 24,
          host_calls := [RefreshAll, ViewAll, RefreshAll, DeselectAll, FrameSet 1]\<rparr>)"
  by code_simp

subsection \<open>A shot without a duration\<close>




subsection \<open>Frame offsets\<close>

text \<open>
  The arithmetic of the accumulator, one run at a time. A tick ends at the first entry
  that carries a version, once its stack is there; so the stack of the first, second or
  third shot is seen in the run whose earlier entries carry no version: at frame 0, 24
  and 72.
\<close>

lemma three_shots:
  assumes "map duration shots = [Some 24, Some 48, Some 12]"
  obtains a b c where "shots = [a, b, c]" "duration a = Some 24" "duration b = Some 48"
    "duration c = Some 12"
  using assms by (auto simp: map_eq_Cons_conv)

lemma first_stack_at_0:
  assumes "map duration shots = [Some 24, Some 48, Some 12]" and "counter s = 0"
  shows "map frame_final_start (seq_ed_sequences (snd
           (build_progressive e False [task] shots
              [(PyInt 0, PyInt 0, Some v), x, y] stl s)))
         = map frame_final_start (seq_ed_sequences s) @ [0]"
proof -
  let ?q = "[(PyInt 0, PyInt 0, Some v), x, y]"
  from assms(1) obtain a b c where sh: "shots = [a, b, c]" "duration a = Some 24"
    by (rule three_shots)
  have t: "py_getitem [task] (PyInt 0) = Returned task" by (simp add: py_getitem_def)
  have g: "py_getitem shots (PyInt 0) = Returned a" using sh by (simp add: py_getitem_def)
  have "build_entry e [task] shots (PyInt 0, PyInt 0, Some v) s
           = (Raised (TypeError
                ''create_version_sequence() missing 1 required positional argument: kitsu_version''),
              (refresh_every_85 s)
                \<lparr>seq_ed_sequences := seq_ed_sequences s
                   @ [\<lparr>meta_name = get_shot_seq_name task a, meta_channel = 0 + 1,
                       frame_final_start = 0, frame_final_duration = 24,
                       stax_meta_usage = ''Versions'', meta_shot = a, sequences = []\<rparr>],
                 annotation_layers := map (add_empty_frames 0 (0 + 24)) (annotation_layers s)\<rparr>)"
    (is "_ = (Raised ?err, ?s1)")
    by (rule build_entry_version [OF t g sh(2)]) simp_all
  then have b: "build_entry e [task] shots (?q ! counter s) s = (Raised ?err, ?s1)"
    using assms(2) by simp
  have c: "counter s < length ?q" using assms(2) by simp
  from build_loop_raised [OF c b, of "Suc (Suc (Suc (Suc 0)))" stl]
  show ?thesis by (simp add: build_progressive_loop del: build_loop.simps)
qed

lemma second_stack_at_24:
  assumes "map duration shots = [Some 24, Some 48, Some 12]" and "counter s = 0"
  shows "map frame_final_start (seq_ed_sequences (snd
           (build_progressive e False [task] shots
              [(PyInt 0, PyInt 0, None), (PyInt 0, PyInt 1, Some v), y] stl s)))
         = map frame_final_start (seq_ed_sequences s) @ [24]"
proof -
  let ?q = "[(PyInt 0, PyInt 0, None), (PyInt 0, PyInt 1, Some v), y]"
  let ?s1 = "(refresh_every_85 s)\<lparr>frame_offset := Some 24, counter := counter (refresh_every_85 s) + 1\<rparr>"
  from assms(1) obtain a b c where sh: "shots = [a, b, c]" "duration a = Some 24"
      "duration b = Some 48"
    by (rule three_shots)
  have t: "py_getitem [task] (PyInt 0) = Returned task" by (simp add: py_getitem_def)
  have g0: "py_getitem shots (PyInt 0) = Returned a" using sh by (simp add: py_getitem_def)
  have g1: "py_getitem shots (PyInt 1) = Returned b" using sh by (simp add: py_getitem_def)
  have c0: "counter s < length ?q" using assms(2) by simp
  have b0: "build_entry e [task] shots (?q ! counter s) s = (Returned (), ?s1)"
    using assms(2) sh(2) by (simp add: build_entry_no_version [OF t g0] offset_shots_first)
  have c1: "counter ?s1 < length ?q" using assms(2) by simp
  have "build_entry e [task] shots (PyInt 0, PyInt 1, Some v) ?s1
           = (Raised (TypeError
                ''create_version_sequence() missing 1 required positional argument: kitsu_version''),
              (refresh_every_85 ?s1)
                \<lparr>seq_ed_sequences := seq_ed_sequences ?s1
                   @ [\<lparr>meta_name = get_shot_seq_name task b, meta_channel = 0 + 1,
                       frame_final_start = 24, frame_final_duration = 48,
                       stax_meta_usage = ''Versions'', meta_shot = b, sequences = []\<rparr>],
                 annotation_layers := map (add_empty_frames 24 (24 + 48)) (annotation_layers ?s1)\<rparr>)"
    (is "_ = (Raised ?err, ?s2)")
    by (rule build_entry_version [OF t g1 sh(3)]) simp_all
  then have b1: "build_entry e [task] shots (?q ! counter ?s1) ?s1 = (Raised ?err, ?s2)"
    using assms(2) by simp
  have "build_loop (Suc (Suc (Suc (Suc (Suc 0))))) e [task] shots ?q stl s
          = build_loop (Suc (Suc (Suc (Suc 0)))) e [task] shots ?q stl ?s1"
    by (rule build_loop_returned [OF c0 b0])
  also have "\<dots> = (Raised ?err, ?s2)"
    by (rule build_loop_raised [OF c1 b1])
  finally show ?thesis
    by (simp add: build_progressive_loop del: build_loop.simps)
qed

lemma third_stack_at_72:
  assumes "map duration shots = [Some 24, Some 48, Some 12]" and "counter s = 0"
  shows "map frame_final_start (seq_ed_sequences (snd
           (build_progressive e False [task] shots
              [(PyInt 0, PyInt 0, None), (PyInt 0, PyInt 1, None), (PyInt 0, PyInt 2, Some v)]
              stl s)))
         = map frame_final_start (seq_ed_sequences s) @ [72]"
proof -
  let ?q = "[(PyInt 0, PyInt 0, None), (PyInt 0, PyInt 1, None), (PyInt 0, PyInt 2, Some v)]"
  let ?s1 = "(refresh_every_85 s)\<lparr>frame_offset := Some 24, counter := counter (refresh_every_85 s) + 1\<rparr>"
  let ?s2 = "(refresh_every_85 ?s1)\<lparr>frame_offset := Some (24 + 48), counter := counter (refresh_every_85 ?s1) + 1\<rparr>"
  from assms(1) obtain a b c where sh: "shots = [a, b, c]" "duration a = Some 24"
      "duration b = Some 48" "duration c = Some 12"
    by (rule three_shots)
  have t: "py_getitem [task] (PyInt 0) = Returned task" by (simp add: py_getitem_def)
  have g0: "py_getitem shots (PyInt 0) = Returned a" using sh by (simp add: py_getitem_def)
  have g1: "py_getitem shots (PyInt 1) = Returned b" using sh by (simp add: py_getitem_def)
  have g2: "py_getitem shots (PyInt 2) = Returned c" using sh by (simp add: py_getitem_def)
  have c0: "counter s < length ?q" using assms(2) by simp
  have b0: "build_entry e [task] shots (?q ! counter s) s = (Returned (), ?s1)"
    using assms(2) sh(2) by (simp add: build_entry_no_version [OF t g0] offset_shots_first)
  have c1: "counter ?s1 < length ?q" using assms(2) by simp
  have f1: "frame_offset (refresh_every_85 ?s1) = Some 24" by simp
  have b1: "build_entry e [task] shots (?q ! counter ?s1) ?s1 = (Returned (), ?s2)"
    using assms(2) sh(3) offset_shots_next [OF _ f1, of 1 48]
    by (simp add: build_entry_no_version [OF t g1])
  have c2: "counter ?s2 < length ?q" using assms(2) by simp
  have "build_entry e [task] shots (PyInt 0, PyInt 2, Some v) ?s2
           = (Raised (TypeError
                ''create_version_sequence() missing 1 required positional argument: kitsu_version''),
              (refresh_every_85 ?s2)
                \<lparr>seq_ed_sequences := seq_ed_sequences ?s2
                   @ [\<lparr>meta_name = get_shot_seq_name task c, meta_channel = 0 + 1,
                       frame_final_start = 72, frame_final_duration = 12,
                       stax_meta_usage = ''Versions'', meta_shot = c, sequences = []\<rparr>],
                 annotation_layers := map (add_empty_frames 72 (72 + 12)) (annotation_layers ?s2)\<rparr>)"
    (is "_ = (Raised ?err, ?s3)")
    by (rule build_entry_version [OF t g2 sh(4)]) simp_all
  then have b2: "build_entry e [task] shots (?q ! counter ?s2) ?s2 = (Raised ?err, ?s3)"
    using assms(2) by simp
  have "build_loop (Suc (Suc (Suc (Suc (Suc 0))))) e [task] shots ?q stl s
          = build_loop (Suc (Suc (Suc (Suc 0)))) e [task] shots ?q stl ?s1"
    by (rule build_loop_returned [OF c0 b0])
  also have "\<dots> = build_loop (Suc (Suc (Suc 0))) e [task] shots ?q stl ?s2"
    by (rule build_loop_returned [OF c1 b1])
  also have "\<dots> = (Raised ?err, ?s3)"
    by (rule build_loop_raised [OF c2 b2])
  finally show ?thesis
    by (simp add: build_progressive_loop del: build_loop.simps)
qed

lemma accumulator_after_turns:
  assumes "map duration shots = [Some 24, Some 48, Some 12]" and "counter s = 0"
  shows "frame_offset (snd (build_loop (Suc 0) e [task] shots
            [(PyInt 0, PyInt 0, None), (PyInt 0, PyInt 1, None), (PyInt 0, PyInt 2, None)]
            stl s)) = Some 24
       \<and> frame_offset (snd (build_loop (Suc (Suc 0)) e [task] shots
            [(PyInt 0, PyInt 0, None), (PyInt 0, PyInt 1, None), (PyInt 0, PyInt 2, None)]
            stl s)) = Some 72"
proof -
  let ?q = "[(PyInt 0, PyInt 0, None), (PyInt 0, PyInt 1, None), (PyInt 0, PyInt 2, None)]"
  let ?s1 = "(refresh_every_85 s)\<lparr>frame_offset := Some 24, counter := counter (refresh_every_85 s) + 1\<rparr>"
  let ?s2 = "(refresh_every_85 ?s1)\<lparr>frame_offset := Some (24 + 48), counter := counter (refresh_every_85 ?s1) + 1\<rparr>"
  from assms(1) obtain a b c where sh: "shots = [a, b, c]" "duration a = Some 24"
      "duration b = Some 48" "duration c = Some 12"
    by (rule three_shots)
  have t: "py_getitem [task] (PyInt 0) = Returned task" by (simp add: py_getitem_def)
  have g0: "py_getitem shots (PyInt 0) = Returned a" using sh by (simp add: py_getitem_def)
  have g1: "py_getitem shots (PyInt 1) = Returned b" using sh by (simp add: py_getitem_def)
  have c0: "counter s < length ?q" using assms(2) by simp
  have b0: "build_entry e [task] shots (?q ! counter s) s = (Returned (), ?s1)"
    using assms(2) sh(2) by (simp add: build_entry_no_version [OF t g0] offset_shots_first)
  have c1: "counter ?s1 < length ?q" using assms(2) by simp
  have f1: "frame_offset (refresh_every_85 ?s1) = Some 24" by simp
  have b1: "build_entry e [task] shots (?q ! counter ?s1) ?s1 = (Returned (), ?s2)"
    using assms(2) sh(3) offset_shots_next [OF _ f1, of 1 48]
    by (simp add: build_entry_no_version [OF t g1])
  have 1: "build_loop (Suc 0) e [task] shots ?q stl s = (Returned (Some 0), ?s1)"
    using build_loop_returned [OF c0 b0, of 0 stl] by simp
  have "build_loop (Suc (Suc 0)) e [task] shots ?q stl s
          = build_loop (Suc 0) e [task] shots ?q stl ?s1"
    by (rule build_loop_returned [OF c0 b0])
  also have "\<dots> = build_loop 0 e [task] shots ?q stl ?s2"
    by (rule build_loop_returned [OF c1 b1])
  finally have 2: "build_loop (Suc (Suc 0)) e [task] shots ?q stl s = (Returned (Some 0), ?s2)"
    by simp
  from 1 2 show ?thesis by simp
qed

text \<open>
  A run of the timer adds at most one shot stack to the timeline, and when it adds one
  it ends with an error.
\<close>

lemma build_entry_stacks:
  "build_entry e ts ks entry s = (r, s1) \<Longrightarrow>
     seq_ed_sequences s1 = seq_ed_sequences s
     \<or> (\<exists>m err. r = Raised err \<and> seq_ed_sequences s1 = seq_ed_sequences s @ [m])"
  apply (cases entry)
  apply (auto simp: build_entry_def build_version_def call_create_version_sequence_def
         replace_last_def Let_def
         split: result.splits prod.splits option.splits if_splits
         dest!: create_shot_stack_Raised create_shot_stack_Returned offset_shots_sequences)
  done

lemma build_loop_stacks:
  "build_loop n e ts ks q stl s = (r, s1) \<Longrightarrow>
     seq_ed_sequences s1 = seq_ed_sequences s
     \<or> (\<exists>m err. r = Raised err \<and> seq_ed_sequences s1 = seq_ed_sequences s @ [m])"
proof (induction n arbitrary: s)
  case 0
  then show ?case by simp
next
  case (Suc n)
  show ?case
  proof (cases "length q \<le> counter s")
    case True
    with Suc.prems show ?thesis by auto
  next
    case False
    obtain r0 s0 where b: "build_entry e ts ks (q ! counter s) s = (r0, s0)"
      by (cases "build_entry e ts ks (q ! counter s) s")
    show ?thesis
    proof (cases r0)
      case (Raised err)
      with b False Suc.prems build_entry_stacks [OF b] show ?thesis by auto
    next
      case (Returned u)
      with b False Suc.prems have l: "build_loop n e ts ks q stl s0 = (r, s1)" by auto
      from build_entry_stacks [OF b] Returned have "seq_ed_sequences s0 = seq_ed_sequences s"
        by auto
      with Suc.IH [OF l] show ?thesis by simp
    qed
  qed
qed

lemma run_timer_stacks:
  "run_timer e ticks ts ks q stl s = (r, s1) \<Longrightarrow>
     seq_ed_sequences s1 = seq_ed_sequences s
     \<or> (\<exists>m err. r = TimerRaised err \<and> seq_ed_sequences s1 = seq_ed_sequences s @ [m])"
proof (induction ticks arbitrary: s)
  case Nil
  then show ?case by simp
next
  case (Cons playing ticks)
  obtain r0 s0 where b: "build_progressive e playing ts ks q stl s = (r0, s0)"
    by (cases "build_progressive e playing ts ks q stl s")
  have st: "seq_ed_sequences s0 = seq_ed_sequences s
     \<or> (\<exists>m err. r0 = Raised err \<and> seq_ed_sequences s0 = seq_ed_sequences s @ [m])"
    using b build_loop_stacks [of 5 e ts ks q stl s r0 s0]
    by (cases playing) (auto simp: build_progressive_def)
  show ?case
  proof (cases r0)
    case (Raised err)
    with b Cons.prems st show ?thesis by auto
  next
    case (Returned d)
    with st have eq: "seq_ed_sequences s0 = seq_ed_sequences s" by auto
    show ?thesis
    proof (cases d)
      case None
      with Returned b Cons.prems eq show ?thesis by auto
    next
      case (Some delay)
      with Returned b Cons.prems have "run_timer e ticks ts ks q stl s0 = (r, s1)" by auto
      from Cons.IH [OF this] eq show ?thesis by simp
    qed
  qed
qed

text \<open>
  C5. One channel, three shots of 24, 48 and 12 frames, each entry carrying a version,
  the cursor at 0. The shot stack of the first shot is created at frame 0; then the call
  \<open>create_version_sequence(shot_seq, version)\<close> raises TypeError (two arguments for
  three required parameters), the tick and the timer end, and the stacks of the second
  and third shot, which the claim places at frames 24 and 72, are never created: the
  timeline holds one stack, at frame 0, and the cursor is still 0.
\<close>

theorem three_versions_one_stack:
  "run_timer plain_env [False, False, False] [''anim''] three_shots_24_48_12
       [(PyInt 0, PyInt 0, Some clip), (PyInt 0, PyInt 1, Some clip),
        (PyInt 0, PyInt 2, Some clip)] '''' empty_timeline
     = (TimerRaised (TypeError
          ''create_version_sequence() missing 1 required positional argument: kitsu_version''),
        empty_timeline
          \<lparr>seq_ed_sequences :=
             [\<lparr>meta_name = ''sh010_anim'', meta_channel = 1, frame_final_start = 0,
               frame_final_duration = 24, stax_meta_usage = ''Versions'',
               meta_shot = shot_of ''sh010'' (Some 24), sequences = []\<rparr>],
           annotation_layers := [[0, 24]],
           host_calls := [RefreshAll]\<rparr>)
   \<and> map frame_final_start (seq_ed_sequences (snd
        (run_timer plain_env [False, False, False] [''anim''] three_shots_24_48_12
           [(PyInt 0, PyInt 0, Some clip), (PyInt 0, PyInt 1, Some clip),
            (PyInt 0, PyInt 2, Some clip)] '''' empty_timeline))) = [0]
   \<and> counter (snd
        (run_timer plain_env [False, False, False] [''anim''] three_shots_24_48_12
           [(PyInt 0, PyInt 0, Some clip), (PyInt 0, PyInt 1, Some clip),
            (PyInt 0, PyInt 2, Some clip)] '''' empty_timeline)) = 0"
  by code_simp

subsection \<open>Version strips\<close>

text \<open>
  Whatever it is given, create_version_sequence raises NameError at its first statement
  and leaves the shot stack as it was.
\<close>

lemma create_version_sequence_raises:
  "create_version_sequence e self shot_stack kitsu_version channel_index try_download
     = (Raised (NameError ''name 'get_version_seq_name' is not defined''), shot_stack)"
  by (simp add: create_version_sequence_def unbound_global_def)

text \<open>
  C8. For a version whose movie path is None or empty, create_version_sequence does not
  return: it raises NameError at line 143, where \<open>get_version_seq_name\<close> is looked up,
  before the sentinel of lines 158 to 161 that would have returned None. This is so
  whether or not a download is to be tried and whatever the shot stack holds; the stack
  is left as it was, so no strip is created.
\<close>

theorem missing_media_locator_raises:
  "create_version_sequence e self shot_stack \<lparr>movie_path = None, status = version_status\<rparr>
       channel_index try_download
     = (Raised (NameError ''name 'get_version_seq_name' is not defined''), shot_stack)
   \<and> create_version_sequence e self shot_stack \<lparr>movie_path = Some '''', status = version_status\<rparr>
       channel_index try_download
     = (Raised (NameError ''name 'get_version_seq_name' is not defined''), shot_stack)"
  by (simp add: create_version_sequence_def unbound_global_def)

subsection \<open>No duplicate version strips\<close>

text \<open>
  No tick, no run of the timer and no sync pass puts a version strip in the timeline:
  every shot stack they create is empty.
\<close>

lemma build_entry_sequences:
  "build_entry e ts ks entry s = (r, s1) \<Longrightarrow>
     seq_ed_sequences s1 = seq_ed_sequences s
     \<or> (\<exists>m. seq_ed_sequences s1 = seq_ed_sequences s @ [m] \<and> sequences m = [])"
  apply (cases entry)
  apply (auto simp: build_entry_def build_version_def call_create_version_sequence_def
         replace_last_def Let_def
         split: result.splits prod.splits option.splits if_splits
         dest!: create_shot_stack_Raised create_shot_stack_Returned offset_shots_sequences)
  done

lemma build_entry_no_containers:
  "build_entry e ts ks entry s = (r, s1) \<Longrightarrow> version_containers s = []
     \<Longrightarrow> version_containers s1 = []"
  by (drule build_entry_sequences) (auto simp: version_containers_def)

lemma finalize_no_containers:
  "version_containers (finalize stl s) = version_containers s"
  by (simp add: version_containers_def)

lemma build_loop_no_containers:
  "build_loop n e ts ks q stl s = (r, s1) \<Longrightarrow> version_containers s = []
     \<Longrightarrow> version_containers s1 = []"
proof (induction n arbitrary: s)
  case 0
  then show ?case by simp
next
  case (Suc n)
  show ?case
  proof (cases "length q \<le> counter s")
    case True
    with Suc.prems show ?thesis by (auto simp: finalize_no_containers)
  next
    case False
    obtain r0 s0 where b: "build_entry e ts ks (q ! counter s) s = (r0, s0)"
      by (cases "build_entry e ts ks (q ! counter s) s")
    from build_entry_no_containers [OF b Suc.prems(2)] have v: "version_containers s0 = []" .
    show ?thesis
    proof (cases r0)
      case (Raised err)
      with b False Suc.prems v show ?thesis by auto
    next
      case (Returned u)
      with b False Suc.prems have "build_loop n e ts ks q stl s0 = (r, s1)" by auto
      from Suc.IH [OF this v] show ?thesis .
    qed
  qed
qed

lemma build_progressive_no_containers:
  "build_progressive e playing ts ks q stl s = (r, s1) \<Longrightarrow> version_containers s = []
     \<Longrightarrow> version_containers s1 = []"
  by (cases playing) (auto simp: build_progressive_def dest: build_loop_no_containers)

lemma run_timer_no_containers:
  "run_timer e ticks ts ks q stl s = (r, s1) \<Longrightarrow> version_containers s = []
     \<Longrightarrow> version_containers s1 = []"
proof (induction ticks arbitrary: s)
  case Nil
  then show ?case by simp
next
  case (Cons playing ticks)
  obtain r0 s0 where b: "build_progressive e playing ts ks q stl s = (r0, s0)"
    by (cases "build_progressive e playing ts ks q stl s")
  from build_progressive_no_containers [OF b Cons.prems(2)] have v: "version_containers s0 = []" .
  show ?case
  proof (cases r0)
    case (Raised err)
    with b Cons.prems v show ?thesis by auto
  next
    case (Returned d)
    show ?thesis
    proof (cases d)
      case None
      with Returned b Cons.prems v show ?thesis by auto
    next
      case (Some delay)
      with Returned b Cons.prems have "run_timer e ticks ts ks q stl s0 = (r, s1)" by auto
      from Cons.IH [OF this v] show ?thesis .
    qed
  qed
qed

lemma load_timeline_no_containers:
  "version_containers (snd (load_timeline chans ks s)) = []"
  by (auto simp: load_timeline_def version_containers_def Let_def split: result.splits)

lemma sync_pass_no_containers:
  "version_containers (snd (sync_pass e chans ks stl ticks s)) = []"
proof -
  obtain r0 s0 where l: "load_timeline chans ks s = (r0, s0)"
    by (cases "load_timeline chans ks s")
  from load_timeline_no_containers [of chans ks s] l have v: "version_containers s0 = []" by simp
  show ?thesis
  proof (cases r0)
    case (Raised err)
    with l v show ?thesis by (simp add: sync_pass_def)
  next
    case (Returned q)
    obtain r1 s1 where t: "run_timer e ticks chans ks q stl s0 = (r1, s1)"
      by (cases "run_timer e ticks chans ks q stl s0")
    from run_timer_no_containers [OF t v] l Returned t show ?thesis
      by (simp add: sync_pass_def)
  qed
qed

text \<open>
  C1. The sentinel of create_version_sequence (lines 146 to 148) is never reached. Given
  a shot stack that already holds a strip of the version's movie, named for it with or
  without the prefix "stax.", the call raises NameError at line 143, where the version's
  name was to be computed, instead of returning None. And a drain whose queue carries
  the version does not finish: the tick raises TypeError at the call
  \<open>create_version_sequence(shot_seq, version)\<close>, with an empty shot stack left in the
  timeline and no version strip in it.
\<close>

theorem existing_version_not_detected:
  "create_version_sequence plain_env ()
       (empty_stack\<lparr>sequences :=
          [new_strip ''/media/sh010_v001.mp4'' MOVIE ''/media/sh010_v001.mp4'' 1 0]\<rparr>)
       clip None False
     = (Raised (NameError ''name 'get_version_seq_name' is not defined''),
        empty_stack\<lparr>sequences :=
          [new_strip ''/media/sh010_v001.mp4'' MOVIE ''/media/sh010_v001.mp4'' 1 0]\<rparr>)
   \<and> create_version_sequence plain_env ()
       (empty_stack\<lparr>sequences :=
          [new_strip ''stax./media/sh010_v001.mp4'' MOVIE ''/media/sh010_v001.mp4'' 1 0]\<rparr>)
       clip None False
     = (Raised (NameError ''name 'get_version_seq_name' is not defined''),
        empty_stack\<lparr>sequences :=
          [new_strip ''stax./media/sh010_v001.mp4'' MOVIE ''/media/sh010_v001.mp4'' 1 0]\<rparr>)
   \<and> run_timer plain_env [False, False] [''anim''] [shot_of ''sh010'' (Some 24)]
       [(PyInt 0, PyInt 0, Some clip)] '''' empty_timeline
     = (TimerRaised (TypeError
          ''create_version_sequence() missing 1 required positional argument: kitsu_version''),
        empty_timeline
          \<lparr>seq_ed_sequences :=
             [\<lparr>meta_name = ''sh010_anim'', meta_channel = 1, frame_final_start = 0,
               frame_final_duration = 24, stax_meta_usage = ''Versions'',
               meta_shot = shot_of ''sh010'' (Some 24), sequences = []\<rparr>],
           annotation_layers := [[0, 24]],
           host_calls := [RefreshAll]\<rparr>)
   \<and> version_containers (snd
        (run_timer plain_env [False, False] [''anim''] [shot_of ''sh010'' (Some 24)]
           [(PyInt 0, PyInt 0, Some clip)] '''' empty_timeline)) = []"
  by code_simp

subsection \<open>Queue order\<close>

text \<open>
  What the load returns, for every selection and every list of shots: a ValueError as
  soon as one selected name is not two characters long; otherwise the slots of the
  channels in reverse selection order, each channel's slots in shot order.
\<close>

lemma map_shots_fill:
  assumes "i \<noteq> PyInt 0"
    and "version_index acc + length shots \<le> length (editing_versions_mapping acc)"
  shows "map_shots i j shots acc
           = Returned (acc\<lparr>editing_versions_mapping :=
                           take (version_index acc) (editing_versions_mapping acc)
                             @ map (\<lambda>k. (i, PyInt (int (j + k)), None)) [0..<length shots]
                             @ drop (version_index acc + length shots)
                                 (editing_versions_mapping acc),
                         version_index := version_index acc + length shots\<rparr>)"
  using assms
proof (induction shots arbitrary: acc j)
  case Nil
  then show ?case by simp
next
  case (Cons shot shots)
  let ?m = "editing_versions_mapping acc"
  let ?vi = "version_index acc"
  let ?acc1 = "acc\<lparr>editing_versions_mapping := ?m[?vi := (i, PyInt (int j), None)],
                    scene_frame_end := scene_frame_end acc,
                    version_index := ?vi + 1\<rparr>"
  from Cons.prems have lt: "?vi < length ?m" by simp
  have room: "version_index ?acc1 + length shots \<le> length (editing_versions_mapping ?acc1)"
    using Cons.prems by simp
  have step: "map_shots i j (shot # shots) acc = map_shots i (Suc j) shots ?acc1"
    using Cons.prems(1) lt by simp
  have tk: "take (Suc ?vi) (?m[?vi := (i, PyInt (int j), None)])
              = take ?vi ?m @ [(i, PyInt (int j), None)]"
    using lt by (simp add: take_Suc_conv_app_nth)
  have mp: "map (\<lambda>k. (i, PyInt (int j + int k), None :: kitsu_version option))
                [0..<Suc (length shots)]
              = (i, PyInt (int j), None)
                # map (\<lambda>k. (i, PyInt (1 + (int j + int k)), None)) [0..<length shots]"
  proof -
    have "[0..<Suc (length shots)] = 0 # map Suc [0..<length shots]"
      by (simp add: upt_conv_Cons map_Suc_upt del: upt_Suc)
    then show ?thesis by (simp add: comp_def del: upt_Suc)
  qed
  show ?case
    unfolding step Cons.IH [OF Cons.prems(1) room]
    using lt by (simp add: tk mp del: upt_Suc)
qed

lemma unpack_pair_two:
  "length name = 2 \<Longrightarrow> unpack_pair name = Returned (PyStr [name ! 0], PyStr [name ! 1])"
  by (cases name rule: remdups_adj.cases) (simp_all add: unpack_pair_def)

lemma unpack_pair_other:
  "length name \<noteq> 2 \<Longrightarrow> \<exists>msg. unpack_pair name = Raised (ValueError msg)"
  by (auto simp: unpack_pair_def split: list.splits)

lemma map_channels_fill:
  assumes "\<forall>name \<in> set names. length name = 2"
    and "version_index acc + length names * length ks \<le> length (editing_versions_mapping acc)"
  shows "map_channels names ks acc
           = Returned (acc\<lparr>editing_versions_mapping :=
                           take (version_index acc) (editing_versions_mapping acc)
                             @ concat (map (\<lambda>name. channel_entries name (length ks)) names)
                             @ drop (version_index acc + length names * length ks)
                                 (editing_versions_mapping acc),
                         version_index := version_index acc + length names * length ks\<rparr>)"
  using assms
proof (induction names arbitrary: acc)
  case Nil
  then show ?case by simp
next
  case (Cons name names)
  let ?m = "editing_versions_mapping acc"
  let ?vi = "version_index acc"
  let ?i = "PyStr [name ! 0]"
  let ?acc1 = "acc\<lparr>editing_versions_mapping :=
                       take ?vi ?m @ map (\<lambda>k. (?i, PyInt (int (0 + k)), None)) [0..<length ks]
                         @ drop (?vi + length ks) ?m,
                     version_index := ?vi + length ks\<rparr>"
  from Cons.prems have two: "length name = 2" and rest: "\<forall>name \<in> set names. length name = 2"
    by simp_all
  from Cons.prems(2) have room0: "?vi + length ks \<le> length ?m" by simp
  have sh: "map_shots ?i 0 ks acc = Returned ?acc1"
    by (rule map_shots_fill [OF _ room0]) simp
  have room1: "version_index ?acc1 + length names * length ks
                 \<le> length (editing_versions_mapping ?acc1)"
    using Cons.prems(2) by simp
  have step: "map_channels (name # names) ks acc = map_channels names ks ?acc1"
    using two sh by (simp add: unpack_pair_two)
  show ?case
    unfolding step Cons.IH [OF rest room1]
    using Cons.prems(2) by (simp add: channel_entries_def ac_simps)
qed

lemma map_channels_raises:
  assumes "\<exists>name \<in> set names. length name \<noteq> 2"
    and "version_index acc + length names * length ks \<le> length (editing_versions_mapping acc)"
  shows "\<exists>msg. map_channels names ks acc = Raised (ValueError msg)"
  using assms
proof (induction names arbitrary: acc)
  case Nil
  then show ?case by simp
next
  case (Cons name names)
  show ?case
  proof (cases "length name = 2")
    case False
    from unpack_pair_other [OF False] show ?thesis by auto
  next
    case True
    let ?m = "editing_versions_mapping acc"
    let ?vi = "version_index acc"
    let ?i = "PyStr [name ! 0]"
    let ?acc1 = "acc\<lparr>editing_versions_mapping :=
                       take ?vi ?m @ map (\<lambda>k. (?i, PyInt (int (0 + k)), None)) [0..<length ks]
                         @ drop (?vi + length ks) ?m,
                     version_index := ?vi + length ks\<rparr>"
    from Cons.prems(2) have room0: "?vi + length ks \<le> length ?m" by simp
    have sh: "map_shots ?i 0 ks acc = Returned ?acc1"
      by (rule map_shots_fill [OF _ room0]) simp
    have room1: "version_index ?acc1 + length names * length ks
                 \<le> length (editing_versions_mapping ?acc1)"
      using Cons.prems(2) by simp
    from Cons.prems(1) True have bad: "\<exists>name \<in> set names. length name \<noteq> 2" by auto
    have step: "map_channels (name # names) ks acc = map_channels names ks ?acc1"
      using True sh by (simp add: unpack_pair_two)
    from Cons.IH [OF bad room1] show ?thesis unfolding step .
  qed
qed

lemma build_mapping_two_characters:
  assumes "\<forall>name \<in> set selected_channels. length name = 2"
  shows "build_mapping selected_channels kitsu_shots
           = Returned \<lparr>editing_versions_mapping =
                          concat (map (\<lambda>name. channel_entries name (length kitsu_shots))
                                      (rev selected_channels)),
                        scene_frame_end = 0,
                        version_index = length selected_channels * length kitsu_shots\<rparr>"
proof -
  let ?acc = "\<lparr>editing_versions_mapping =
                 replicate (length selected_channels * length kitsu_shots) (PyNone, PyNone, None),
               scene_frame_end = 0, version_index = 0\<rparr>"
  have a: "\<forall>name \<in> set (rev selected_channels). length name = 2" using assms by simp
  have r: "version_index ?acc + length (rev selected_channels) * length kitsu_shots
             \<le> length (editing_versions_mapping ?acc)" by simp
  show ?thesis
    unfolding build_mapping_def Let_def map_channels_fill [OF a r] by simp
qed

lemma build_mapping_other_length:
  assumes "\<exists>name \<in> set selected_channels. length name \<noteq> 2"
  shows "\<exists>msg. build_mapping selected_channels kitsu_shots = Raised (ValueError msg)"
proof -
  let ?acc = "\<lparr>editing_versions_mapping =
                 replicate (length selected_channels * length kitsu_shots) (PyNone, PyNone, None),
               scene_frame_end = 0, version_index = 0\<rparr>"
  have a: "\<exists>name \<in> set (rev selected_channels). length name \<noteq> 2" using assms by simp
  have r: "version_index ?acc + length (rev selected_channels) * length kitsu_shots
             \<le> length (editing_versions_mapping ?acc)" by simp
  from map_channels_raises [OF a r] show ?thesis
    unfolding build_mapping_def Let_def .
qed

text \<open>
  C2. The queue is meant to list the channels in reverse selection order and, within a
  channel, the shots in timeline order; the loop that builds it unpacks each channel
  name, a string, into the index and the channel. A channel named Animation makes the load
  raise ValueError; with two-character names the load returns a queue in that order
  whose channel entries are the names' first characters, not indices, and the first tick
  of the build raises TypeError when it subscripts the channel list with one.
\<close>

theorem load_unpacks_channel_names:
  "build_mapping [''Animation''] []
     = Raised (ValueError ''too many values to unpack (expected 2)'')
   \<and> build_mapping [''Animation''] [shot_of ''sh010'' (Some 24)]
     = Raised (ValueError ''too many values to unpack (expected 2)'')
   \<and> sync_pass plain_env [''Animation''] [shot_of ''sh010'' (Some 24)] '''' [False] empty_timeline
     = (TimerRaised (ValueError ''too many values to unpack (expected 2)''), empty_timeline)
   \<and> build_mapping [''ab'', ''cd''] [shot_of ''sh010'' (Some 24), shot_of ''sh020'' (Some 48)]
     = Returned \<lparr>editing_versions_mapping =
          [(PyStr ''c'', PyInt 0, None), (PyStr ''c'', PyInt 1, None),
           (PyStr ''a'', PyInt 0, None), (PyStr ''a'', PyInt 1, None)],
         scene_frame_end = 0, version_index = 4\<rparr>
   \<and> sync_pass plain_env [''ab'', ''cd'']
        [shot_of ''sh010'' (Some 24), shot_of ''sh020'' (Some 48)] '''' [False] empty_timeline
     = (TimerRaised (TypeError ''list indices must be integers or slices, not str''),
        empty_timeline\<lparr>host_calls := [ViewAll, RefreshAll]\<rparr>)"
  by code_simp

subsection \<open>Notes of a review\<close>

lemma edit_review_notes:
  "edit_review available_statuses version = Returned (Some review)
     \<Longrightarrow> review_notes review = [] \<and> movie_path version = Some (media review)"
  by (auto simp: edit_review_def review_contents_def Let_def
           split: option.splits if_splits result.splits)

lemma edit_review_returns:
  assumes "movie_path version = Some path" and "path \<noteq> []"
    and "available_statuses ''approved'' = Some approved"
    and "available_statuses ''rejected'' = Some rejected"
  shows "\<exists>st. edit_review available_statuses version
           = Returned (Some \<lparr>media = path, review_status = st, review_notes = []\<rparr>)"
  using assms
  by (auto simp: edit_review_def review_contents_def build_orio_status_def py_in_def Let_def
           split: option.splits)

text \<open>
  build_reviews returns only slots that are None: for a version that is not None it
  raises NameError, at \<open>attach_to_dl\<close> when there is a note and at \<open>Process\<close>
  otherwise, unless edit_review has raised first.
\<close>

lemma build_reviews_loop_Returned:
  "build_reviews_loop available_statuses kitsu_notes versions = Returned reviews
     \<Longrightarrow> set versions \<subseteq> {None} \<and> reviews = map (\<lambda>v. None) versions"
proof (induction available_statuses kitsu_notes versions arbitrary: reviews
       rule: build_reviews_loop.induct)
  case (1 available_statuses kitsu_notes)
  then show ?case by simp
next
  case (2 available_statuses kitsu_notes versions)
  then show ?case by (auto split: result.splits)
next
  case (3 available_statuses kitsu_notes version versions)
  then show ?case
    by (auto simp: unbound_global_def split: list.splits result.splits)
qed

text \<open>
  C9, as amended. edit_review builds a review from the statuses and the version alone;
  it is given no notes and the note list it loops over is empty. For a version with a
  movie path and a taxonomy that has the approved and the rejected labels it returns a
  review of that path with no note; and whenever it returns a review, the review has no
  note. So no incoming note, orphan or not, is attached at the root of a thread or
  flagged in the review that edit_review builds.
\<close>

theorem edit_review_attaches_no_note:
  "(edit_review available_statuses version = Returned (Some review)
      \<longrightarrow> review_notes review = [] \<and> movie_path version = Some (media review))
   \<and> (movie_path version = Some path \<and> path \<noteq> []
       \<and> available_statuses ''approved'' = Some approved
       \<and> available_statuses ''rejected'' = Some rejected
      \<longrightarrow> (\<exists>st. edit_review available_statuses version
                  = Returned (Some \<lparr>media = path, review_status = st, review_notes = []\<rparr>)))"
  using edit_review_notes [of available_statuses version review]
        edit_review_returns [of version path available_statuses approved rejected]
  by blast

theorem edit_review_attaches_no_note_witness:
  "edit_review studio_statuses clip
     = Returned (Some \<lparr>media = ''/media/sh010_v001.mp4'',
                       review_status = Some \<lparr>state = ''approved'', author = ''''\<rparr>,
                       review_notes = []\<rparr>)
   \<and> review_notes \<lparr>media = ''/media/sh010_v001.mp4'',
                    review_status = Some \<lparr>state = ''approved'', author = ''''\<rparr>,
                    review_notes = []\<rparr> = []
   \<and> movie_path clip
     = Some (media \<lparr>media = ''/media/sh010_v001.mp4'',
                    review_status = Some \<lparr>state = ''approved'', author = ''''\<rparr>,
                    review_notes = []\<rparr>)
   \<and> (\<exists>st. edit_review studio_statuses clip
             = Returned (Some \<lparr>media = ''/media/sh010_v001.mp4'', review_status = st,
                               review_notes = []\<rparr>))"
proof -
  let ?r = "\<lparr>media = ''/media/sh010_v001.mp4'',
             review_status = Some \<lparr>state = ''approved'', author = ''''\<rparr>,
             review_notes = []\<rparr>"
  have 1: "edit_review studio_statuses clip = Returned (Some ?r)"
    by code_simp
  have 2: "movie_path clip = Some ''/media/sh010_v001.mp4''" by (simp add: clip_def)
  have 3: "''/media/sh010_v001.mp4'' \<noteq> []" by simp
  have 4: "studio_statuses ''approved'' = Some [''done'']" by (simp add: studio_statuses_def)
  have 5: "studio_statuses ''rejected'' = Some [''retake'']" by (simp add: studio_statuses_def)
  note t = edit_review_attaches_no_note [where available_statuses = studio_statuses
      and version = clip and review = ?r and path = "''/media/sh010_v001.mp4''"
      and approved = "[''done'']" and rejected = "[''retake'']"]
  from t 1 have a: "review_notes ?r = [] \<and> movie_path clip = Some (media ?r)" by blast
  from t 2 3 4 5 have b: "\<exists>st. edit_review studio_statuses clip
             = Returned (Some \<lparr>media = ''/media/sh010_v001.mp4'', review_status = st,
                               review_notes = []\<rparr>)" by blast
  from 1 a b show ?thesis by blast
qed

text \<open>
  The claim as stated (an orphan note is attached at the root of the review's thread and
  flagged, never dropped, and the reconciliation goes on) fails on one version and one
  incoming note whose parent is not in the batch: the review that edit_review builds for
  the version has no note, and build_reviews, the only function that is given the note,
  raises NameError at \<open>attach_to_dl\<close> and returns no review; without the note it raises
  at \<open>Process\<close>.
\<close>

theorem orphan_note_not_attached:
  "edit_review studio_statuses clip
     = Returned (Some \<lparr>media = ''/media/sh010_v001.mp4'',
                       review_status = Some \<lparr>state = ''approved'', author = ''''\<rparr>,
                       review_notes = []\<rparr>)
   \<and> build_reviews studio_statuses [Some clip] [orphan_note]
     = Raised (NameError ''name 'attach_to_dl' is not defined'')
   \<and> build_reviews studio_statuses [Some clip] []
     = Raised (NameError ''name 'Process' is not defined'')"
  by code_simp

subsection \<open>Stored credentials\<close>

lemma b64_char_table:
  "v < 64 \<Longrightarrow> table_a2b_base64 (b64_char v) = Some v"
  by (auto simp: table_a2b_base64_def b64_char_def)

lemma b64_char_not_pad:
  "b64_char v \<noteq> 61"
  by (auto simp: b64_char_def)

lemma b64_char_ascii:
  "b64_char v < 128"
  by (auto simp: b64_char_def)

lemma a2b_loop_symbol:
  "v < 64 \<Longrightarrow> a2b_loop (b64_char v # rest) quad_pos leftchar pads out =
     (if quad_pos = 0 then a2b_loop rest 1 v 0 out
      else if quad_pos = 1 then a2b_loop rest 2 (v mod 16) 0 (out @ [leftchar * 4 + v div 16])
      else if quad_pos = 2 then a2b_loop rest 3 (v mod 4) 0 (out @ [leftchar * 16 + v div 4])
      else a2b_loop rest 0 0 0 (out @ [leftchar * 64 + v]))"
  by (simp add: b64_char_table b64_char_not_pad)

lemma a2b_loop_pad:
  "a2b_loop (61 # rest) quad_pos leftchar pads out =
     (if quad_pos \<ge> 2 \<and> quad_pos + (pads + 1) \<ge> 4 then Returned out
      else a2b_loop rest quad_pos leftchar (if quad_pos \<ge> 2 then pads + 1 else pads) out)"
  by simp

lemma pack_less: "x < m \<Longrightarrow> y < n \<Longrightarrow> x * n + y < m * (n::nat)"
proof -
  assume "x < m" "y < n"
  then have "x * n + y < x * n + n" by simp
  also have "\<dots> = (x + 1) * n" by simp
  also have "\<dots> \<le> m * n" using \<open>x < m\<close> by (intro mult_le_mono1) simp
  finally show ?thesis .
qed

lemma sextets:
  assumes "(a::nat) < 256" "(b::nat) < 256" "(c::nat) < 256"
  shows "a div 4 < 64" "a mod 4 * 16 + b div 16 < 64" "b mod 16 * 4 + c div 64 < 64"
    "c mod 64 < 64" "a mod 4 * 16 < 64" "b mod 16 * 4 < 64" "b div 16 < 16" "c div 64 < 4"
proof -
  show "a div 4 < 64" using assms by simp
  show "b div 16 < 16" using assms by simp
  then have "b div 16 < 16" .
  with pack_less [of "a mod 4" 4 "b div 16" 16] show "a mod 4 * 16 + b div 16 < 64" by simp
  show "c div 64 < 4" using assms by simp
  then have "c div 64 < 4" .
  with pack_less [of "b mod 16" 16 "c div 64" 4] show "b mod 16 * 4 + c div 64 < 64" by simp
  show "c mod 64 < 64" by simp
  from pack_less [of "a mod 4" 4 0 16] show "a mod 4 * 16 < 64" by simp
  from pack_less [of "b mod 16" 16 0 4] show "b mod 16 * 4 < 64" by simp
qed

lemma a2b_loop_b2a:
  "\<forall>b \<in> set bs. b < 256 \<Longrightarrow> a2b_loop (b2a_base64 bs) 0 leftchar 0 out = Returned (out @ bs)"
proof (induction bs arbitrary: leftchar out rule: b2a_base64.induct)
  case 1
  then show ?case by simp
next
  case (2 a)
  then have a: "a < 256" by simp
  note v = sextets [OF a a a]
  show ?case
    by (simp add: a2b_loop_symbol a2b_loop_pad v del: a2b_loop.simps(2))
next
  case (3 a b)
  then have a: "a < 256" "b < 256" by simp_all
  note v = sextets [OF a a(2)]
  show ?case
    by (simp add: a2b_loop_symbol a2b_loop_pad v del: a2b_loop.simps(2))
next
  case (4 a b c r)
  then have a: "a < 256" "b < 256" "c < 256" and r: "\<forall>b \<in> set r. b < 256" by simp_all
  note v = sextets [OF a]
  show ?case
    by (simp add: a2b_loop_symbol v "4.IH" [OF r] del: a2b_loop.simps(2))
qed

lemma b2a_base64_ascii:
  "\<forall>c \<in> set (b2a_base64 bs). c < 128"
  by (induction bs rule: b2a_base64.induct) (simp_all add: b64_char_ascii)

lemma b2a_base64_empty:
  "b2a_base64 bs = [] \<longleftrightarrow> bs = []"
  by (cases bs rule: b2a_base64.cases) simp_all

lemma utf8_decode_ascii:
  "\<forall>c \<in> set xs. c < 128 \<Longrightarrow> utf8_decode xs = Returned xs"
  by (induction xs) simp_all

lemma utf8_bytes_range:
  "c < 0x110000 \<Longrightarrow> \<forall>b \<in> set (utf8_bytes c). b < 256"
  by (auto simp: utf8_bytes_def)

lemma recompose3: "c div 4096 * 4096 + c div 64 mod 64 * 64 + c mod 64 = (c::nat)"
proof -
  define x where "x = c div 64"
  define y where "y = x div 64"
  have 1: "x * 64 + c mod 64 = c" unfolding x_def by simp
  have 2: "y * 64 + x mod 64 = x" unfolding y_def by simp
  have 3: "c div 4096 = y" unfolding y_def x_def by (simp add: div_mult2_eq)
  have "y * 4096 + x mod 64 * 64 + c mod 64 = (y * 64 + x mod 64) * 64 + c mod 64"
    by (simp add: algebra_simps)
  also have "\<dots> = c" by (simp only: 2 1)
  finally show ?thesis by (simp only: 3 x_def [symmetric])
qed
lemma recompose4: "c div 262144 * 262144 + c div 4096 mod 64 * 4096 + c div 64 mod 64 * 64 + c mod 64 = (c::nat)"
proof -
  define x where "x = c div 64"
  define y where "y = x div 64"
  define z where "z = y div 64"
  have 1: "x * 64 + c mod 64 = c" unfolding x_def by simp
  have 2: "y * 64 + x mod 64 = x" unfolding y_def by simp
  have 3: "z * 64 + y mod 64 = y" unfolding z_def by simp
  have 4: "c div 4096 = y" unfolding y_def x_def by (simp add: div_mult2_eq)
  have 5: "c div 262144 = z" unfolding z_def y_def x_def by (simp add: div_mult2_eq)
  have "z * 262144 + y mod 64 * 4096 + x mod 64 * 64 + c mod 64
          = ((z * 64 + y mod 64) * 64 + x mod 64) * 64 + c mod 64"
    by (simp add: algebra_simps)
  also have "\<dots> = c" by (simp only: 3 2 1)
  finally show ?thesis by (simp only: 4 5 x_def [symmetric])
qed

lemma utf8_decode_bytes:
  assumes "unicode_scalar c"
  shows "utf8_decode (utf8_bytes c @ rest)
           = (case utf8_decode rest of Raised err \<Rightarrow> Raised err
              | Returned cs \<Rightarrow> Returned (c # cs))"
proof -
  from assms have r: "c < 0x110000" and s: "\<not> is_surrogate c"
    by (simp_all add: unicode_scalar_def)
  consider "c < 0x80" | "0x80 \<le> c" "c < 0x800" | "0x800 \<le> c" "c < 0x10000"
    | "0x10000 \<le> c"
    by linarith
  then show ?thesis
  proof cases
    case 1
    then show ?thesis by (simp add: utf8_bytes_def)
  next
    case 2
    then have d: "c div 0x40 < 0x20" by simp
    have m: "c mod 0x40 < 0x40" by simp
    have e: "c div 0x40 * 0x40 + c mod 0x40 = c" by simp
    have ub: "utf8_bytes c = [0xC0 + c div 0x40, 0x80 + c mod 0x40]"
      using 2 by (simp add: utf8_bytes_def)
    have lo: "0x80 \<le> c div 0x40 * 0x40 + c mod 0x40" using 2 e by simp
    from d m lo show ?thesis
      unfolding ub by (simp add: is_continuation_def e)
  next
    case 3
    then have d: "c div 0x1000 < 0x10" by simp
    have m: "c mod 0x40 < 0x40" "c div 0x40 mod 0x40 < 0x40" by simp_all
    have e: "c div 0x1000 * 0x1000 + c div 0x40 mod 0x40 * 0x40 + c mod 0x40 = c"
      by (rule recompose3)
    have ub: "utf8_bytes c
        = [0xE0 + c div 0x1000, 0x80 + c div 0x40 mod 0x40, 0x80 + c mod 0x40]"
      using 3 by (simp add: utf8_bytes_def)
    from 3 d m s show ?thesis
      unfolding ub by (simp add: is_continuation_def e)
  next
    case 4
    with r have d: "c div 0x40000 < 0x8" by simp
    have m: "c mod 0x40 < 0x40" "c div 0x40 mod 0x40 < 0x40" "c div 0x1000 mod 0x40 < 0x40"
      by simp_all
    have e: "c div 0x40000 * 0x40000 + c div 0x1000 mod 0x40 * 0x1000
        + c div 0x40 mod 0x40 * 0x40 + c mod 0x40 = c"
      by (rule recompose4)
    have ub: "utf8_bytes c
        = [0xF0 + c div 0x40000, 0x80 + c div 0x1000 mod 0x40, 0x80 + c div 0x40 mod 0x40,
           0x80 + c mod 0x40]"
      using 4 by (simp add: utf8_bytes_def)
    from 4 r d m show ?thesis
      unfolding ub by (simp add: is_continuation_def e)
  qed
qed

lemma utf8_encode_scalars:
  "\<forall>c \<in> set p. unicode_scalar c \<Longrightarrow> utf8_encode p = Returned (concat (map utf8_bytes p))"
  by (induction p) (simp_all add: unicode_scalar_def)

lemma utf8_decode_encoded:
  "\<forall>c \<in> set p. unicode_scalar c \<Longrightarrow> utf8_decode (concat (map utf8_bytes p)) = Returned p"
  by (induction p) (simp_all add: utf8_decode_bytes)

lemma utf8_encoded_range:
  "\<forall>c \<in> set p. unicode_scalar c \<Longrightarrow> \<forall>b \<in> set (concat (map utf8_bytes p)). b < 256"
  using utf8_bytes_range by (auto simp: unicode_scalar_def)

lemma utf8_bytes_not_empty: "utf8_bytes c \<noteq> []"
  by (simp add: utf8_bytes_def)

lemma lone_surrogate_not_encoded:
  "encode_password [0xD800] = Raised UnicodeEncodeError"
  by (simp add: encode_password_def is_surrogate_def)

text \<open>
  C10. For every string p of Unicode scalar values, encode_password p returns the base64
  text of p's UTF-8 octets and decode_password of that text returns p; and
  decode_password of the empty string returns the empty string. (A \<open>str\<close> holding a
  lone surrogate is not encoded: \<open>p.encode("utf-8")\<close> raises UnicodeEncodeError.)
\<close>

theorem password_round_trip:
  assumes "\<forall>c \<in> set p. unicode_scalar c"
  shows "encode_password p = Returned (b64encode (concat (map utf8_bytes p)))
       \<and> decode_password (b64encode (concat (map utf8_bytes p))) = Returned p
       \<and> decode_password [] = Returned []"
proof -
  let ?bs = "concat (map utf8_bytes p)"
  have e: "encode_password p = Returned (b64encode ?bs)"
    using assms
    by (simp add: encode_password_def utf8_encode_scalars b64encode_def
          utf8_decode_ascii b2a_base64_ascii)
  have d: "decode_password (b64encode ?bs) = Returned p"
  proof (cases "p = []")
    case True
    then show ?thesis by (simp add: decode_password_def b64encode_def)
  next
    case False
    then have "?bs \<noteq> []" by (cases p) (simp_all add: utf8_bytes_not_empty)
    then have ne: "b2a_base64 ?bs \<noteq> []" by (simp add: b2a_base64_empty)
    have "a2b_base64 (b2a_base64 ?bs) = Returned ?bs"
      unfolding a2b_base64_def
      using a2b_loop_b2a [OF utf8_encoded_range [OF assms], of 0 "[]"] by simp
    with ne assms show ?thesis
      by (simp add: decode_password_def b64encode_def b64decode_def b2a_base64_ascii
            utf8_decode_encoded)
  qed
  have "decode_password [] = Returned []" by (simp add: decode_password_def)
  with e d show ?thesis by simp
qed

theorem password_round_trip_witness:
  "encode_password [112, 233, 8364, 128512]
     = Returned [99, 77, 79, 112, 52, 111, 75, 115, 56, 74, 43, 89, 103, 65, 61, 61]
   \<and> decode_password [99, 77, 79, 112, 52, 111, 75, 115, 56, 74, 43, 89, 103, 65, 61, 61]
     = Returned [112, 233, 8364, 128512]
   \<and> decode_password [] = Returned []"
proof -
  have h: "\<forall>c \<in> set [112, 233, 8364, 128512]. unicode_scalar c"
    by (simp add: unicode_scalar_def is_surrogate_def)
  have b: "b64encode (concat (map utf8_bytes [112, 233, 8364, 128512]))
             = [99, 77, 79, 112, 52, 111, 75, 115, 56, 74, 43, 89, 103, 65, 61, 61]"
    by (simp add: b64encode_def utf8_bytes_def b64_char_def)
  from password_round_trip [OF h] show ?thesis
    unfolding b by simp
qed

end
